theory Spec2Isabelle
  imports Complex_Main "HOL-Library.Word" "HOL-Library.Signed_Division"
begin

section \<open>Go values used by the fairness tracker\<close>

text \<open>
  Seeds, row and column indices and millisecond timestamps are Go \<^verbatim>\<open>uint64\<close>:
  64-bit words with unsigned comparison and wrapping addition.
\<close>

type_synonym u64 = "64 word"

text \<open>
  Probabilities and probability deltas are Go \<^verbatim>\<open>float64\<close>. The model keeps the four
  kinds of value an IEEE-754 double can be: not-a-number, the two infinities and the finite
  values. Finite values are idealised as reals: rounding is not modelled, so the sum of two
  finite values is their exact sum, where Go rounds it to the nearest double. What the model
  keeps exactly is how \<^verbatim>\<open>+\<close>, \<^verbatim>\<open><\<close> and \<^verbatim>\<open>></\<close> treat NaN and the infinities: any sum with NaN
  is NaN, the sum of opposite infinities is NaN, and every ordered comparison with NaN is false.
\<close>

datatype f64 = NaN | NegInf | Fin real | PosInf

fun f64_add :: "f64 \<Rightarrow> f64 \<Rightarrow> f64" where
  "f64_add NaN _ = NaN"
| "f64_add _ NaN = NaN"
| "f64_add PosInf NegInf = NaN"
| "f64_add NegInf PosInf = NaN"
| "f64_add PosInf _ = PosInf"
| "f64_add _ PosInf = PosInf"
| "f64_add NegInf _ = NegInf"
| "f64_add _ NegInf = NegInf"
| "f64_add (Fin x) (Fin y) = Fin (x + y)"

fun f64_lt :: "f64 \<Rightarrow> f64 \<Rightarrow> bool" where
  "f64_lt NaN _ = False"
| "f64_lt _ NaN = False"
| "f64_lt PosInf _ = False"
| "f64_lt _ NegInf = False"
| "f64_lt NegInf _ = True"
| "f64_lt _ PosInf = True"
| "f64_lt (Fin x) (Fin y) = (x < y)"

definition f64_gt :: "f64 \<Rightarrow> f64 \<Rightarrow> bool" where
  "f64_gt a b = f64_lt b a"

text \<open>A float lies in the closed unit interval when it is a finite value between 0 and 1.\<close>

fun in_unit_interval :: "f64 \<Rightarrow> bool" where
  "in_unit_interval (Fin x) = (0 \<le> x \<and> x \<le> 1)"
| "in_unit_interval _ = False"

section \<open>The aggregation store (pkg/state/store/inmemory.go)\<close>

text \<open>The fields of \<^verbatim>\<open>statepb.Bucket\<close> that the store reads and writes.\<close>

record Bucket =
  RowId :: u64
  ColId :: u64
  Prob :: f64
  LastUpdateTimeMs :: u64

type_synonym bucket_table = "u64 \<rightharpoonup> (u64 \<rightharpoonup> (u64 \<rightharpoonup> Bucket))"

text \<open>
  \<^verbatim>\<open>InMemoryStore\<close>: the map seed \<open>\<rightarrow>\<close> row \<open>\<rightarrow>\<close> col \<open>\<rightarrow>\<close> bucket and the three durations
  (\<^verbatim>\<open>time.Duration\<close>, an int64 count of nanoseconds). The mutex, the cancel function and
  the wait group carry no data. Every method runs under the store's lock, so each is one
  atomic step from store to store.
\<close>

record InMemoryStore =
  buckets :: bucket_table
  windowSize :: "64 word"
  evictionTTL :: "64 word"
  evictionTick :: "64 word"

definition NewInMemoryStore :: "64 word \<Rightarrow> 64 word \<Rightarrow> 64 word \<Rightarrow> InMemoryStore" where
  "NewInMemoryStore w ttl tick =
     \<lparr>buckets = Map.empty, windowSize = w, evictionTTL = ttl, evictionTick = tick\<rparr>"

text \<open>
  Lines 57 to 64 of \<^verbatim>\<open>ApplyDelta\<close>: add the delta, then clamp with the two comparisons
  \<^verbatim>\<open>if p < 0.0 {p = 0.0} else if p > 1.0 {p = 1.0}\<close>.
\<close>

definition add_and_clamp :: "f64 \<Rightarrow> f64 \<Rightarrow> f64" where
  "add_and_clamp p deltaProb =
     (let q = f64_add p deltaProb in
      if f64_lt q (Fin 0) then Fin 0
      else if f64_gt q (Fin 1) then Fin 1
      else q)"

text \<open>Lines 66 to 69: max-timestamp-wins.\<close>

definition max_timestamp_wins :: "u64 \<Rightarrow> u64 \<Rightarrow> u64" where
  "max_timestamp_wins timestampMs stored = (if timestampMs > stored then timestampMs else stored)"

text \<open>
  \<^verbatim>\<open>ApplyDelta\<close>. The two intermediate maps and the bucket are created when missing (a
  new bucket has probability 0.0 and timestamp 0), the bucket is updated in place, and a copy of
  it is returned. The Go function also returns an error, which is always \<^verbatim>\<open>nil\<close>.
\<close>

definition ApplyDelta ::
  "InMemoryStore \<Rightarrow> u64 \<Rightarrow> u64 \<Rightarrow> u64 \<Rightarrow> f64 \<Rightarrow> u64 \<Rightarrow> Bucket \<times> InMemoryStore" where
  "ApplyDelta s seed rowID colID deltaProb timestampMs =
     (let seedMap = (case buckets s seed of None \<Rightarrow> Map.empty | Some m \<Rightarrow> m);
          rowMap = (case seedMap rowID of None \<Rightarrow> Map.empty | Some m \<Rightarrow> m);
          bucket = (case rowMap colID of
                      None \<Rightarrow> \<lparr>RowId = rowID, ColId = colID, Prob = Fin 0, LastUpdateTimeMs = 0\<rparr>
                    | Some b \<Rightarrow> b);
          bucket' = bucket\<lparr>Prob := add_and_clamp (Prob bucket) deltaProb,
                           LastUpdateTimeMs :=
                             max_timestamp_wins timestampMs (LastUpdateTimeMs bucket)\<rparr>
      in (\<lparr>RowId = RowId bucket', ColId = ColId bucket', Prob = Prob bucket',
           LastUpdateTimeMs = LastUpdateTimeMs bucket'\<rparr>,
          s\<lparr>buckets := (buckets s)(seed \<mapsto> seedMap(rowID \<mapsto> rowMap(colID \<mapsto> bucket')))\<rparr>))"

text \<open>
  \<^verbatim>\<open>GetSeed\<close> returns an empty slice when the seed is absent. Otherwise it ranges over
  the row maps of the seed and over the buckets of each row map, and appends a copy of every
  bucket to the result. Go leaves the order of a range over a map open: \<open>rows\<close> is the order
  in which the outer range yields the row keys, \<open>cols r\<close> the order in which the inner range
  yields the column keys of row \<open>r\<close>.
\<close>

definition GetSeed :: "u64 list \<Rightarrow> (u64 \<Rightarrow> u64 list) \<Rightarrow> InMemoryStore \<Rightarrow> u64 \<Rightarrow> Bucket list" where
  "GetSeed rows cols s seed =
     (case buckets s seed of
        None \<Rightarrow> []
      | Some seedMap \<Rightarrow>
          concat (map (\<lambda>r. case seedMap r of
                              None \<Rightarrow> []
                            | Some rowMap \<Rightarrow>
                                concat (map (\<lambda>c. case rowMap c of
                                                    None \<Rightarrow> []
                                                  | Some bucket \<Rightarrow>
                                                      [\<lparr>RowId = RowId bucket,
                                                        ColId = ColId bucket,
                                                        Prob = Prob bucket,
                                                        LastUpdateTimeMs =
                                                          LastUpdateTimeMs bucket\<rparr>])
                                          (cols r)))
                      rows))"

text \<open>
  \<^verbatim>\<open>EvictBefore\<close> ranges over the top-level keys and deletes each key below the seed while
  ranging. The list is the order in which the range statement yields the keys of the map.
\<close>

fun EvictBefore_loop :: "u64 list \<Rightarrow> u64 \<Rightarrow> bucket_table \<Rightarrow> bucket_table" where
  "EvictBefore_loop [] seed m = m"
| "EvictBefore_loop (sKey # ks) seed m =
     EvictBefore_loop ks seed (if sKey < seed then m(sKey := None) else m)"

definition EvictBefore :: "u64 list \<Rightarrow> InMemoryStore \<Rightarrow> u64 \<Rightarrow> InMemoryStore" where
  "EvictBefore ks s seed = s\<lparr>buckets := EvictBefore_loop ks seed (buckets s)\<rparr>"

text \<open>The bucket stored under a key, and its timestamp read as 0 when there is none.\<close>

definition stored_bucket :: "InMemoryStore \<Rightarrow> u64 \<Rightarrow> u64 \<Rightarrow> u64 \<Rightarrow> Bucket option" where
  "stored_bucket s seed row col =
     (case buckets s seed of
        None \<Rightarrow> None
      | Some seedMap \<Rightarrow> (case seedMap row of None \<Rightarrow> None | Some rowMap \<Rightarrow> rowMap col))"

definition stored_prob :: "InMemoryStore \<Rightarrow> u64 \<Rightarrow> u64 \<Rightarrow> u64 \<Rightarrow> f64" where
  "stored_prob s seed row col =
     (case stored_bucket s seed row col of None \<Rightarrow> Fin 0 | Some b \<Rightarrow> Prob b)"

definition stored_ts :: "InMemoryStore \<Rightarrow> u64 \<Rightarrow> u64 \<Rightarrow> u64 \<Rightarrow> u64" where
  "stored_ts s seed row col =
     (case stored_bucket s seed row col of None \<Rightarrow> 0 | Some b \<Rightarrow> LastUpdateTimeMs b)"

section \<open>Go channels\<close>

text \<open>
  A buffered channel is its buffer, its capacity and whether it has been closed. A send inside
  a \<^verbatim>\<open>select\<close> with a \<^verbatim>\<open>default\<close> branch never waits: it panics on a closed channel,
  appends when the buffer has room, and otherwise falls to the default branch. (A receiver
  can only be waiting when the buffer is empty, where the send has room anyway.) Closing a
  closed channel panics.
\<close>

datatype go_panic = SendOnClosedChannel | CloseOfClosedChannel | IntegerDivideByZero

record 'a chan =
  ch_buf :: "'a list"
  ch_cap :: nat
  ch_closed :: bool

definition make_chan :: "nat \<Rightarrow> 'a chan" where
  "make_chan n = \<lparr>ch_buf = [], ch_cap = n, ch_closed = False\<rparr>"

datatype 'a try_send_result = Sent "'a chan" | WouldBlock | SendPanics

definition try_send :: "'a chan \<Rightarrow> 'a \<Rightarrow> 'a try_send_result" where
  "try_send ch msg =
     (if ch_closed ch then SendPanics
      else if length (ch_buf ch) < ch_cap ch then Sent (ch\<lparr>ch_buf := ch_buf ch @ [msg]\<rparr>)
      else WouldBlock)"

definition close_chan :: "'a chan \<Rightarrow> go_panic + 'a chan" where
  "close_chan ch = (if ch_closed ch then Inl CloseOfClosedChannel else Inr (ch\<lparr>ch_closed := True\<rparr>))"

section \<open>The broadcast hub (pkg/broadcast/hub.go)\<close>

record SyncResponse =
  Seed :: u64
  Buckets :: "Bucket list"

text \<open>
  A \<^verbatim>\<open>*Client\<close> is an address. The hub's \<^verbatim>\<open>clients\<close> map is keyed by these addresses;
  \<open>Send h c\<close> is the \<^verbatim>\<open>Send\<close> channel of the client object at address \<open>c\<close>, which
  exists whether or not the client is still in the map.
\<close>

type_synonym client_ref = nat

record Hub =
  clients :: "client_ref \<rightharpoonup> bool"
  Send :: "client_ref \<Rightarrow> SyncResponse chan"

text \<open>\<^verbatim>\<open>NewHub\<close> starts with an empty map; the argument is the store of client objects.\<close>

definition NewHub :: "(client_ref \<Rightarrow> SyncResponse chan) \<Rightarrow> Hub" where
  "NewHub heap = \<lparr>clients = Map.empty, Send = heap\<rparr>"

text \<open>
  \<^verbatim>\<open>Register\<close> allocates a client with a fresh channel of capacity 256 at address \<open>client\<close>
  and hands it to \<^verbatim>\<open>Run\<close>, whose register case sets \<^verbatim>\<open>h.clients[client] = true\<close>.
\<close>

definition Register :: "client_ref \<Rightarrow> Hub \<Rightarrow> Hub" where
  "Register client h =
     h\<lparr>Send := (Send h)(client := make_chan 256), clients := (clients h)(client \<mapsto> True)\<rparr>"

text \<open>The unregister case of \<^verbatim>\<open>Run\<close>: a client still in the map is deleted and its channel closed.\<close>

definition run_unregister :: "client_ref \<Rightarrow> Hub \<Rightarrow> go_panic + Hub" where
  "run_unregister client h =
     (case clients h client of
        None \<Rightarrow> Inr h
      | Some _ \<Rightarrow>
          (case close_chan (Send h client) of
             Inl p \<Rightarrow> Inl p
           | Inr ch \<Rightarrow>
               Inr (h\<lparr>clients := (clients h)(client := None),
                       Send := (Send h)(client := ch)\<rparr>)))"

text \<open>
  The broadcast case of \<^verbatim>\<open>Run\<close>: the loop over \<^verbatim>\<open>range h.clients\<close>. The list is the
  order in which the range statement yields the clients. Each one is offered the message by a
  non-blocking send; in the default branch its channel is closed and it is deleted from the map.
\<close>

fun run_broadcast :: "client_ref list \<Rightarrow> SyncResponse \<Rightarrow> Hub \<Rightarrow> go_panic + Hub" where
  "run_broadcast [] message h = Inr h"
| "run_broadcast (client # cs) message h =
     (case try_send (Send h client) message of
        Sent ch \<Rightarrow> run_broadcast cs message (h\<lparr>Send := (Send h)(client := ch)\<rparr>)
      | WouldBlock \<Rightarrow>
          (case close_chan (Send h client) of
             Inl p \<Rightarrow> Inl p
           | Inr ch \<Rightarrow>
               run_broadcast cs message
                 (h\<lparr>Send := (Send h)(client := ch), clients := (clients h)(client := None)\<rparr>))
      | SendPanics \<Rightarrow> Inl SendOnClosedChannel)"

text \<open>
  \<^verbatim>\<open>Run\<close> is a single loop that takes one event at a time from its three channels. A
  broadcast event carries the order in which the map is ranged over.
\<close>

datatype hub_event =
  RegisterEv client_ref
| UnregisterEv client_ref
| BroadcastEv SyncResponse "client_ref list"

fun Run :: "hub_event list \<Rightarrow> Hub \<Rightarrow> go_panic + Hub" where
  "Run [] h = Inr h"
| "Run (RegisterEv client # es) h = Run es (Register client h)"
| "Run (UnregisterEv client # es) h =
     (case run_unregister client h of Inl p \<Rightarrow> Inl p | Inr h' \<Rightarrow> Run es h')"
| "Run (BroadcastEv message cs # es) h =
     (case run_broadcast cs message h of Inl p \<Rightarrow> Inl p | Inr h' \<Rightarrow> Run es h')"

text \<open>No client in the map has a closed channel: the states \<^verbatim>\<open>Run\<close> moves between.\<close>

definition hub_inv :: "Hub \<Rightarrow> bool" where
  "hub_inv h = (\<forall>c \<in> dom (clients h). \<not> ch_closed (Send h c))"

section \<open>The state client (pkg/state/client/client.go)\<close>

record BucketDelta =
  DeltaRowId :: u64
  DeltaColId :: u64
  DeltaProb :: f64
  DeltaLastUpdateTimeMs :: u64

datatype SyncRequest = DeltaUpdate u64 "BucketDelta list" | StateRequest u64

text \<open>
  The client's outbound queue \<^verbatim>\<open>sendCh\<close> is a channel of capacity 1024. The update callback,
  the context and the wait group are not part of the queue's state.
\<close>

record Client =
  addr :: string
  sendCh :: "SyncRequest chan"

definition NewClient :: "string \<Rightarrow> Client" where
  "NewClient a = \<lparr>addr = a, sendCh = make_chan 1024\<rparr>"

text \<open>
  Both producers build the request and offer it with a non-blocking send. The second component
  of the result is what was written to the log.
\<close>

definition SendDeltaUpdate ::
  "Client \<Rightarrow> u64 \<Rightarrow> BucketDelta list \<Rightarrow> go_panic + (Client \<times> string list)" where
  "SendDeltaUpdate c seed deltas =
     (case try_send (sendCh c) (DeltaUpdate seed deltas) of
        Sent ch \<Rightarrow> Inr (c\<lparr>sendCh := ch\<rparr>, [])
      | WouldBlock \<Rightarrow> Inr (c, [''State Service client buffer full, dropping delta update''])
      | SendPanics \<Rightarrow> Inl SendOnClosedChannel)"

definition RequestFullState :: "Client \<Rightarrow> u64 \<Rightarrow> go_panic + (Client \<times> string list)" where
  "RequestFullState c seed =
     (case try_send (sendCh c) (StateRequest seed) of
        Sent ch \<Rightarrow> Inr (c\<lparr>sendCh := ch\<rparr>, [])
      | WouldBlock \<Rightarrow> Inr (c, [''State Service client buffer full, dropping state request''])
      | SendPanics \<Rightarrow> Inl SendOnClosedChannel)"

section \<open>The local tracker (package tracker)\<close>

text \<open>
  Of \<^verbatim>\<open>config.FairnessTrackerConfig\<close> the tracker itself reads the rotation frequency (a
  \<^verbatim>\<open>time.Duration\<close>: int64 nanoseconds), the stats flag and the state service address; the
  remaining fields are read by package \<^verbatim>\<open>data\<close> only.
\<close>

record FairnessTrackerConfig =
  RotationFrequency :: "64 word"
  IncludeStats :: bool
  StateServiceAddress :: string

text \<open>\<^verbatim>\<open>Duration.Milliseconds\<close>: the signed quotient by \<open>10\<^sup>6\<close>, truncated towards zero.\<close>

definition Milliseconds :: "64 word \<Rightarrow> 64 word" where
  "Milliseconds d = word_of_int (sint d sdiv 1000000)"

type_synonym bytes = "8 word list"

datatype Outcome = OutcomeSuccess | OutcomeFailure

text \<open>
  The counting structure lives in package \<^verbatim>\<open>data\<close>, whose sources are not part of this
  development, and the tracker holds it behind the interface \<^verbatim>\<open>request.Tracker\<close>. The
  tracker is therefore modelled over any type \<open>'s\<close> of structures. What it calls on them is a
  parameter:
  the factory \<^verbatim>\<open>newTrackerStructureWithClock\<close> (configuration, seed, stats flag; it can fail),
  \<^verbatim>\<open>SetReportDeltaFunc\<close> (the seed of the closure it installs) and \<^verbatim>\<open>GetID\<close>.
\<close>

record 's structure_ops =
  newTrackerStructureWithClock :: "FairnessTrackerConfig \<Rightarrow> u64 \<Rightarrow> bool \<Rightarrow> string + 's"
  SetReportDeltaFunc :: "u64 \<Rightarrow> 's \<Rightarrow> 's"
  GetID :: "'s \<Rightarrow> u64"

text \<open>
  The two slots the rotation lock guards. The state client the tracker points to
  (\<open>None\<close> for a nil pointer) is passed alongside, since the tracker only ever changes its
  queue. Holders of the rotation lock exclude each other from rotation, so a rotation and a
  \<^verbatim>\<open>RegisterRequest\<close> or \<^verbatim>\<open>ReportOutcome\<close> are steps of one sequence.
\<close>

record 's FairnessTracker =
  mainStructure :: 's
  secondaryStructure :: 's

datatype failure = FairnessTrackerError string | Fatalf string | Panic go_panic

definition createStructure ::
  "'s structure_ops \<Rightarrow> FairnessTrackerConfig \<Rightarrow> u64 \<Rightarrow> Client option \<Rightarrow> string + 's" where
  "createStructure ops cfg seed client =
     (case newTrackerStructureWithClock ops cfg seed (IncludeStats cfg) of
        Inl err \<Rightarrow> Inl err
      | Inr st \<Rightarrow> Inr (case client of None \<Rightarrow> st | Some _ \<Rightarrow> SetReportDeltaFunc ops seed st))"

text \<open>
  \<^verbatim>\<open>NewFairnessTrackerWithClockAndTicker\<close> up to the start of the rotation goroutine.
  \<open>now\<close> is \<^verbatim>\<open>uint64(clock.Now().UnixMilli())\<close>. Dividing by a window of zero
  milliseconds panics.
\<close>

definition NewFairnessTrackerWithClockAndTicker ::
  "'s structure_ops \<Rightarrow> FairnessTrackerConfig option \<Rightarrow> u64 \<Rightarrow>
     failure + ('s FairnessTracker \<times> Client option)" where
  "NewFairnessTrackerWithClockAndTicker ops trackerConfig now =
     (case trackerConfig of
        None \<Rightarrow> Inl (FairnessTrackerError ''trackerConfig must not be nil'')
      | Some cfg \<Rightarrow>
          (let stateClient =
                 (if StateServiceAddress cfg \<noteq> [] then Some (NewClient (StateServiceAddress cfg))
                  else None);
               windowMs = Milliseconds (RotationFrequency cfg)
           in if windowMs = 0 then Inl (Panic IntegerDivideByZero)
              else
                (let currentSeed = now div windowMs;
                     nextSeed = currentSeed + 1
                 in case createStructure ops cfg currentSeed stateClient of
                      Inl err \<Rightarrow> Inl (FairnessTrackerError ''Failed to create a structure'')
                    | Inr st1 \<Rightarrow>
                        (case createStructure ops cfg nextSeed stateClient of
                           Inl err \<Rightarrow> Inl (FairnessTrackerError ''Failed to create a structure'')
                         | Inr st2 \<Rightarrow>
                             (let ft = \<lparr>mainStructure = st1, secondaryStructure = st2\<rparr>
                              in case stateClient of
                                   None \<Rightarrow> Inr (ft, None)
                                 | Some c \<Rightarrow>
                                     (case RequestFullState c currentSeed of
                                        Inl p \<Rightarrow> Inl (Panic p)
                                      | Inr (c1, _) \<Rightarrow>
                                          (case RequestFullState c1 nextSeed of
                                             Inl p \<Rightarrow> Inl (Panic p)
                                           | Inr (c2, _) \<Rightarrow> Inr (ft, Some c2))))))))"

text \<open>
  One firing of the rotation ticker. \<open>now\<close> is the clock reading taken at the tick. When the
  structure cannot be created the goroutine calls \<^verbatim>\<open>logger.Fatalf\<close> and goes on to the
  next event without rotating.
\<close>

definition rotation_tick ::
  "'s structure_ops \<Rightarrow> FairnessTrackerConfig \<Rightarrow> u64 \<Rightarrow> 's FairnessTracker \<times> Client option \<Rightarrow>
     failure + ('s FairnessTracker \<times> Client option)" where
  "rotation_tick ops cfg now st =
     (let ft = fst st; stateClient = snd st;
          windowMs = Milliseconds (RotationFrequency cfg)
      in if windowMs = 0 then Inl (Panic IntegerDivideByZero)
         else
           (let seed = (now div windowMs) + 1
            in case createStructure ops cfg seed stateClient of
                 Inl err \<Rightarrow> Inl (Fatalf ''failed to create a structure during rotation'')
               | Inr s \<Rightarrow>
                   (case stateClient of
                      None \<Rightarrow>
                        Inr (\<lparr>mainStructure = secondaryStructure ft, secondaryStructure = s\<rparr>,
                             None)
                    | Some c \<Rightarrow>
                        (case RequestFullState c seed of
                           Inl p \<Rightarrow> Inl (Panic p)
                         | Inr (c', _) \<Rightarrow>
                             Inr (\<lparr>mainStructure = secondaryStructure ft,
                                   secondaryStructure = s\<rparr>, Some c')))))"

text \<open>
  The rotation goroutine: a loop over what its \<^verbatim>\<open>select\<close> receives, a stop signal or a tick.
\<close>

datatype rotation_event = StopRotation | Tick u64

fun rotation_goroutine ::
  "'s structure_ops \<Rightarrow> FairnessTrackerConfig \<Rightarrow> rotation_event list \<Rightarrow>
     's FairnessTracker \<times> Client option \<Rightarrow> 's FairnessTracker \<times> Client option" where
  "rotation_goroutine ops cfg [] st = st"
| "rotation_goroutine ops cfg (StopRotation # es) st = st"
| "rotation_goroutine ops cfg (Tick now # es) st =
     (case rotation_tick ops cfg now st of
        Inr st' \<Rightarrow> rotation_goroutine ops cfg es st'
      | Inl (Panic p) \<Rightarrow> st
      | Inl _ \<Rightarrow> rotation_goroutine ops cfg es st)"

text \<open>
  Every tick of the list fires at a clock reading whose target seed differs from the seed of
  the structure that is secondary at that moment.
\<close>

fun ticks_leave_window ::
  "'s structure_ops \<Rightarrow> FairnessTrackerConfig \<Rightarrow> rotation_event list \<Rightarrow>
     's FairnessTracker \<times> Client option \<Rightarrow> bool" where
  "ticks_leave_window ops cfg [] st = True"
| "ticks_leave_window ops cfg (StopRotation # es) st = True"
| "ticks_leave_window ops cfg (Tick now # es) st =
     ((now div Milliseconds (RotationFrequency cfg)) + 1 \<noteq> GetID ops (secondaryStructure (fst st))
      \<and> (case rotation_tick ops cfg now st of
           Inr st' \<Rightarrow> ticks_leave_window ops cfg es st'
         | Inl (Panic p) \<Rightarrow> True
         | Inl _ \<Rightarrow> ticks_leave_window ops cfg es st))"

text \<open>
  \<^verbatim>\<open>RegisterRequest\<close> and \<^verbatim>\<open>ReportOutcome\<close> of the tracker. The method a structure offers
  under the same name is a parameter: from the structure, the client identifier and the state
  \<open>'w\<close> of everything else it touches (clock, random source, outbound deltas) it gives its result,
  the structure afterwards and that state afterwards.
\<close>

definition RegisterRequest ::
  "('s \<Rightarrow> bytes \<Rightarrow> 'w \<Rightarrow> 'r \<times> 's \<times> 'w) \<Rightarrow> 's FairnessTracker \<Rightarrow> bytes \<Rightarrow> 'w \<Rightarrow>
     'r \<times> 's FairnessTracker \<times> 'w" where
  "RegisterRequest structure_RegisterRequest ft clientIdentifier w =
     (case structure_RegisterRequest (mainStructure ft) clientIdentifier w of
        (resp, main', w1) \<Rightarrow>
          (case structure_RegisterRequest (secondaryStructure ft) clientIdentifier w1 of
             (_, secondary', w2) \<Rightarrow>
               (resp, \<lparr>mainStructure = main', secondaryStructure = secondary'\<rparr>, w2)))"

definition ReportOutcome ::
  "('s \<Rightarrow> bytes \<Rightarrow> Outcome \<Rightarrow> 'w \<Rightarrow> 'r \<times> 's \<times> 'w) \<Rightarrow> 's FairnessTracker \<Rightarrow> bytes \<Rightarrow> Outcome \<Rightarrow>
     'w \<Rightarrow> 'r \<times> 's FairnessTracker \<times> 'w" where
  "ReportOutcome structure_ReportOutcome ft clientIdentifier outcome w =
     (case structure_ReportOutcome (mainStructure ft) clientIdentifier outcome w of
        (resp, main', w1) \<Rightarrow>
          (case structure_ReportOutcome (secondaryStructure ft) clientIdentifier outcome w1 of
             (_, secondary', w2) \<Rightarrow>
               (resp, \<lparr>mainStructure = main', secondaryStructure = secondary'\<rparr>, w2)))"

subsection \<open>A recording structure\<close>

text \<open>
  An implementation of the three capabilities that remembers its seed and the calls it has
  received, in order. Its results carry the seed of the structure that produced them and the
  number of calls it had received before. The state outside the structures is a count of calls.
\<close>

datatype call = RegisterRequestCall bytes | ReportOutcomeCall bytes Outcome

record recorder =
  rec_seed :: u64
  rec_calls :: "call list"

definition recorder_ops :: "recorder structure_ops" where
  "recorder_ops =
     \<lparr>newTrackerStructureWithClock = (\<lambda>cfg seed stats. Inr \<lparr>rec_seed = seed, rec_calls = []\<rparr>),
      SetReportDeltaFunc = (\<lambda>seed st. st),
      GetID = rec_seed\<rparr>"

definition recorder_RegisterRequest ::
  "recorder \<Rightarrow> bytes \<Rightarrow> nat \<Rightarrow> (u64 \<times> nat) \<times> recorder \<times> nat" where
  "recorder_RegisterRequest st cid w =
     ((rec_seed st, length (rec_calls st)),
      st\<lparr>rec_calls := rec_calls st @ [RegisterRequestCall cid]\<rparr>, Suc w)"

definition recorder_ReportOutcome ::
  "recorder \<Rightarrow> bytes \<Rightarrow> Outcome \<Rightarrow> nat \<Rightarrow> (u64 \<times> nat) \<times> recorder \<times> nat" where
  "recorder_ReportOutcome st cid outcome w =
     ((rec_seed st, length (rec_calls st)),
      st\<lparr>rec_calls := rec_calls st @ [ReportOutcomeCall cid outcome]\<rparr>, Suc w)"

section \<open>Notions used in the statements\<close>

text \<open>
  The timestamps stored under one key along a sequence of \<^verbatim>\<open>ApplyDelta\<close> calls to that key:
  the stored timestamp before the first call, then the one after each call.
\<close>

fun ts_history ::
  "InMemoryStore \<Rightarrow> u64 \<Rightarrow> u64 \<Rightarrow> u64 \<Rightarrow> (f64 \<times> u64) list \<Rightarrow> u64 list" where
  "ts_history s seed row col [] = [stored_ts s seed row col]"
| "ts_history s seed row col ((d, ts) # calls) =
     stored_ts s seed row col # ts_history (snd (ApplyDelta s seed row col d ts)) seed row col calls"

text \<open>The store invariant of the data model: every stored probability lies in \<open>[0, 1]\<close>.\<close>

definition probs_in_unit_interval :: "InMemoryStore \<Rightarrow> bool" where
  "probs_in_unit_interval s =
     (\<forall>seed row col b. stored_bucket s seed row col = Some b \<longrightarrow> in_unit_interval (Prob b))"

text \<open>The store of the eviction test: one bucket under each of the seeds 1, 2 and 3.\<close>

definition three_seeds :: InMemoryStore where
  "three_seeds =
     snd (ApplyDelta (snd (ApplyDelta (snd (ApplyDelta (NewInMemoryStore 0 0 0)
       1 1 1 (Fin 0.5) 100)) 2 1 1 (Fin 0.5) 200)) 3 1 1 (Fin 0.5) 300)"

text \<open>A channel has room when its buffer is shorter than its capacity.\<close>

definition has_room :: "'a chan \<Rightarrow> bool" where
  "has_room ch = (length (ch_buf ch) < ch_cap ch)"

text \<open>
  The orders that the broadcast events of a run carry are orders in which a range statement
  can yield the client map at that moment: each registered client once.
\<close>

fun range_orders :: "hub_event list \<Rightarrow> Hub \<Rightarrow> bool" where
  "range_orders [] h = True"
| "range_orders (RegisterEv client # es) h = range_orders es (Register client h)"
| "range_orders (UnregisterEv client # es) h =
     (case run_unregister client h of Inl p \<Rightarrow> True | Inr h' \<Rightarrow> range_orders es h')"
| "range_orders (BroadcastEv message cs # es) h =
     (distinct cs \<and> set cs = dom (clients h)
      \<and> (case run_broadcast cs message h of Inl p \<Rightarrow> True | Inr h' \<Rightarrow> range_orders es h'))"

text \<open>A hub with two registered clients: client 1 has an empty queue, client 2 a full one.\<close>

definition two_clients :: Hub where
  "two_clients =
     \<lparr>clients = [1 \<mapsto> True, 2 \<mapsto> True],
      Send = (\<lambda>c. make_chan 256)
        (2 := \<lparr>ch_buf = replicate 256 \<lparr>Seed = 0, Buckets = []\<rparr>, ch_cap = 256,
               ch_closed = False\<rparr>)\<rparr>"

text \<open>A state client whose outbound queue holds 1024 requests.\<close>

definition full_client :: Client where
  "full_client =
     \<lparr>addr = ''localhost:50051'',
      sendCh = \<lparr>ch_buf = replicate 1024 (StateRequest 0), ch_cap = 1024, ch_closed = False\<rparr>\<rparr>"

text \<open>
  Modelled from the spec: package \<^verbatim>\<open>data\<close> (\<^verbatim>\<open>NewStructureWithClock\<close>, \<^verbatim>\<open>GetID\<close>,
  \<^verbatim>\<open>SetReportDeltaFunc\<close>) is missing. The specification gives a counting structure an
  immutable 64-bit seed: a structure created for a seed reports that seed as its ID, also once
  the delta function is installed.
\<close>

definition creates_with_seed :: "'s structure_ops \<Rightarrow> bool" where
  "creates_with_seed ops =
     (\<forall>cfg seed stats st. newTrackerStructureWithClock ops cfg seed stats = Inr st \<longrightarrow>
        GetID ops st = seed \<and> GetID ops (SetReportDeltaFunc ops seed st) = seed)"

text \<open>
  Every tick of the list fires in a later window than the reading before it (\<open>prev\<close> for
  the first tick): what a ticker whose period is the window gives on a clock that runs forward.
\<close>

fun windows_increase :: "u64 \<Rightarrow> u64 \<Rightarrow> rotation_event list \<Rightarrow> bool" where
  "windows_increase windowMs prev [] = True"
| "windows_increase windowMs prev (StopRotation # es) = True"
| "windows_increase windowMs prev (Tick now # es) =
     (prev div windowMs < now div windowMs \<and> windows_increase windowMs now es)"

text \<open>
  Every tick of the list fires in a window in which no earlier clock reading fell. \<open>seen\<close>
  holds the window indices \<open>reading / window\<close> of the readings so far: the one taken at
  construction and those of the ticks before.
\<close>

fun fresh_windows :: "u64 \<Rightarrow> u64 list \<Rightarrow> rotation_event list \<Rightarrow> bool" where
  "fresh_windows windowMs seen [] = True"
| "fresh_windows windowMs seen (StopRotation # es) = True"
| "fresh_windows windowMs seen (Tick now # es) =
     (now div windowMs \<notin> set seen \<and> fresh_windows windowMs (now div windowMs # seen) es)"

text \<open>Two configurations with a rotation window of one second, without and with a state service.\<close>

definition one_second_window :: FairnessTrackerConfig where
  "one_second_window =
     \<lparr>RotationFrequency = 1000000000, IncludeStats = False, StateServiceAddress = []\<rparr>"

definition with_state_service :: FairnessTrackerConfig where
  "with_state_service =
     \<lparr>RotationFrequency = 1000000000, IncludeStats = False,
      StateServiceAddress = ''localhost:50051''\<rparr>"

section \<open>The aggregation store: what one call does to one key\<close>

lemma stored_bucket_ApplyDelta:
  "stored_bucket (snd (ApplyDelta s seed row col d ts)) seed' row' col' =
     (if seed' = seed \<and> row' = row \<and> col' = col
      then Some ((case stored_bucket s seed row col of
                    None \<Rightarrow> \<lparr>RowId = row, ColId = col, Prob = Fin 0, LastUpdateTimeMs = 0\<rparr>
                  | Some b \<Rightarrow> b)
                 \<lparr>Prob := add_and_clamp (stored_prob s seed row col) d,
                  LastUpdateTimeMs := max_timestamp_wins ts (stored_ts s seed row col)\<rparr>)
      else stored_bucket s seed' row' col')"
  by (auto simp: ApplyDelta_def stored_bucket_def stored_prob_def stored_ts_def Let_def
      split: option.splits)

lemma stored_prob_ApplyDelta:
  "stored_prob (snd (ApplyDelta s seed row col d ts)) seed row col =
     add_and_clamp (stored_prob s seed row col) d"
  by (simp add: stored_prob_def[of "snd _"] stored_bucket_ApplyDelta)

lemma stored_ts_ApplyDelta:
  "stored_ts (snd (ApplyDelta s seed row col d ts)) seed row col =
     max_timestamp_wins ts (stored_ts s seed row col)"
  by (simp add: stored_ts_def[of "snd _"] stored_bucket_ApplyDelta)

lemma returned_bucket_ApplyDelta:
  "fst (ApplyDelta s seed row col d ts) =
     \<lparr>RowId = (case stored_bucket s seed row col of None \<Rightarrow> row | Some b \<Rightarrow> RowId b),
      ColId = (case stored_bucket s seed row col of None \<Rightarrow> col | Some b \<Rightarrow> ColId b),
      Prob = add_and_clamp (stored_prob s seed row col) d,
      LastUpdateTimeMs = max_timestamp_wins ts (stored_ts s seed row col)\<rparr>"
  by (auto simp: ApplyDelta_def stored_bucket_def stored_prob_def stored_ts_def Let_def
      split: option.splits)

lemma dom_buckets_ApplyDelta:
  "dom (buckets (snd (ApplyDelta s seed row col d ts))) = insert seed (dom (buckets s))"
  by (simp add: ApplyDelta_def Let_def)

lemma max_timestamp_wins_max: "max_timestamp_wins ts old = max old ts"
  by (auto simp: max_timestamp_wins_def max_def)

subsection \<open>Clamping\<close>

lemma add_and_clamp_Fin:
  "add_and_clamp (Fin p) (Fin d) = Fin (max 0 (min 1 (p + d)))"
  by (auto simp: add_and_clamp_def f64_gt_def Let_def max_def min_def)

lemma add_and_clamp_cases:
  "add_and_clamp (Fin p) d =
     (case d of NaN \<Rightarrow> NaN | NegInf \<Rightarrow> Fin 0 | PosInf \<Rightarrow> Fin 1
      | Fin x \<Rightarrow> Fin (max 0 (min 1 (p + x))))"
  by (cases d) (auto simp: add_and_clamp_def f64_gt_def Let_def max_def min_def)

lemma add_and_clamp_NaN:
  "add_and_clamp p NaN = NaN" "add_and_clamp NaN d = NaN"
  by (cases p) (simp_all add: add_and_clamp_def f64_gt_def Let_def)

lemma add_and_clamp_in_unit:
  "p \<noteq> NaN \<Longrightarrow> d \<noteq> NaN \<Longrightarrow> in_unit_interval p \<Longrightarrow> in_unit_interval (add_and_clamp p d)"
  by (cases p; cases d) (auto simp: add_and_clamp_def f64_gt_def Let_def)

lemma in_unit_interval_not_NaN: "in_unit_interval p \<Longrightarrow> p \<noteq> NaN"
  by (cases p) auto

lemma stored_prob_unit:
  "probs_in_unit_interval s \<Longrightarrow> in_unit_interval (stored_prob s seed row col)"
  by (auto simp: probs_in_unit_interval_def stored_prob_def split: option.splits)

text \<open>
  The probability that \<^verbatim>\<open>ApplyDelta\<close> returns and stores is the old one (0 for a new
  bucket) plus the delta, clamped by the two comparisons, whatever the delta.
\<close>

lemma ApplyDelta_prob:
  "Prob (fst (ApplyDelta s seed row col d ts)) = add_and_clamp (stored_prob s seed row col) d
   \<and> stored_prob (snd (ApplyDelta s seed row col d ts)) seed row col =
       add_and_clamp (stored_prob s seed row col) d"
  by (simp add: returned_bucket_ApplyDelta stored_prob_ApplyDelta)

text \<open>A delta that is a number (finite or infinite) keeps every stored probability in \<open>[0, 1]\<close>.\<close>

lemma ApplyDelta_keeps_unit_interval:
  assumes "probs_in_unit_interval s" and "d \<noteq> NaN"
  shows "probs_in_unit_interval (snd (ApplyDelta s seed row col d ts))"
  unfolding probs_in_unit_interval_def
proof (intro allI impI)
  fix seed' row' col' b
  assume b: "stored_bucket (snd (ApplyDelta s seed row col d ts)) seed' row' col' = Some b"
  show "in_unit_interval (Prob b)"
  proof (cases "seed' = seed \<and> row' = row \<and> col' = col")
    case True
    then have "Prob b = add_and_clamp (stored_prob s seed row col) d"
      using b by (auto simp: stored_bucket_ApplyDelta)
    then show ?thesis
      using assms stored_prob_unit [of s seed row col]
      by (simp add: add_and_clamp_in_unit in_unit_interval_not_NaN)
  next
    case False
    then have "stored_bucket s seed' row' col' = Some b"
      using b by (auto simp: stored_bucket_ApplyDelta)
    then show ?thesis
      using assms(1) by (auto simp: probs_in_unit_interval_def)
  qed
qed

text \<open>
  The clamping scenario of the specification, from any store that satisfies the invariant:
  \<open>+0.7\<close> then \<open>+0.5\<close> returns 1, and \<open>\<minus>1.5\<close> after that returns 0.
\<close>

lemma store_clamps_scenario:
  assumes "probs_in_unit_interval s0"
  shows "Prob (fst (ApplyDelta (snd (ApplyDelta s0 s r c (Fin 0.7) t1)) s r c (Fin 0.5) t2)) = Fin 1
    \<and> Prob (fst (ApplyDelta (snd (ApplyDelta (snd (ApplyDelta s0 s r c (Fin 0.7) t1))
              s r c (Fin 0.5) t2)) s r c (Fin (- 1.5)) t3)) = Fin 0"
proof -
  obtain p where p: "stored_prob s0 s r c = Fin p" "0 \<le> p" "p \<le> 1"
    using stored_prob_unit [OF assms, of s r c] by (cases "stored_prob s0 s r c") auto
  show ?thesis
    using p by (simp add: ApplyDelta_prob add_and_clamp_Fin max_def min_def)
qed

text \<open>
  C1. The claim: after every \<^verbatim>\<open>ApplyDelta\<close> the returned probability is the clamped sum and the
  stored value is always in \<open>[0, 1]\<close>. The code adds and then tests \<^verbatim>\<open>p < 0.0\<close> and
  \<^verbatim>\<open>p > 1.0\<close>; both tests are false for a NaN. On the empty store,
  \<^verbatim>\<open>ApplyDelta(1, 1, 1, NaN, 1000)\<close> returns and stores the probability NaN, which is
  not in \<open>[0, 1]\<close>, and a later delta of \<open>+0.5\<close> leaves it NaN.
\<close>

theorem ApplyDelta_NaN_not_clamped:
  "Prob (fst (ApplyDelta (NewInMemoryStore 0 0 0) 1 1 1 NaN 1000)) = NaN
   \<and> stored_prob (snd (ApplyDelta (NewInMemoryStore 0 0 0) 1 1 1 NaN 1000)) 1 1 1 = NaN
   \<and> \<not> in_unit_interval
         (stored_prob (snd (ApplyDelta (NewInMemoryStore 0 0 0) 1 1 1 NaN 1000)) 1 1 1)
   \<and> stored_prob (snd (ApplyDelta (snd (ApplyDelta (NewInMemoryStore 0 0 0) 1 1 1 NaN 1000))
         1 1 1 (Fin 0.5) 2000)) 1 1 1 = NaN"
proof -
  have e: "stored_prob (NewInMemoryStore 0 0 0) 1 1 1 = Fin 0"
    by (simp add: stored_prob_def stored_bucket_def NewInMemoryStore_def)
  show ?thesis
    by (simp add: ApplyDelta_prob e add_and_clamp_NaN)
qed

subsection \<open>Timestamps\<close>

lemma hd_ts_history: "hd (ts_history s seed row col calls) = stored_ts s seed row col"
  by (cases calls) auto

lemma ts_history_nonempty: "ts_history s seed row col calls \<noteq> []"
  by (cases calls) auto

lemma sorted_ts_history: "sorted (ts_history s seed row col calls)"
proof (induction calls arbitrary: s)
  case Nil
  then show ?case by simp
next
  case (Cons c calls)
  obtain d ts where c: "c = (d, ts)" by (cases c)
  let ?s' = "snd (ApplyDelta s seed row col d ts)"
  have le: "stored_ts s seed row col \<le> stored_ts ?s' seed row col"
    by (simp add: stored_ts_ApplyDelta max_timestamp_wins_max)
  have srt: "sorted (ts_history ?s' seed row col calls)"
    by (rule Cons.IH)
  obtain y ys where ys: "ts_history ?s' seed row col calls = y # ys"
    using ts_history_nonempty [of ?s' seed row col calls]
    by (cases "ts_history ?s' seed row col calls") auto
  have y: "y = stored_ts ?s' seed row col"
    using hd_ts_history [of ?s' seed row col calls] ys by simp
  have "sorted (stored_ts s seed row col # y # ys)"
    using srt le unfolding ys y by auto
  then show ?case
    unfolding c by (simp add: ys)
qed

text \<open>
  C2. After \<^verbatim>\<open>ApplyDelta(seed, row, col, d, ts)\<close> the timestamp stored under the key, and the
  one in the returned bucket, is the maximum of the previous one (0 for a new bucket) and
  \<open>ts\<close>; along any sequence of calls to the same key the stored timestamps never decrease;
  and a call whose timestamp is not newer leaves the stored timestamp as it was.
\<close>

theorem ApplyDelta_timestamp_max_wins:
  "stored_ts (snd (ApplyDelta s seed row col d ts)) seed row col = max (stored_ts s seed row col) ts
   \<and> LastUpdateTimeMs (fst (ApplyDelta s seed row col d ts)) = max (stored_ts s seed row col) ts
   \<and> sorted (ts_history s seed row col calls)
   \<and> (ts \<le> stored_ts s seed row col \<longrightarrow>
        stored_ts (snd (ApplyDelta s seed row col d ts)) seed row col = stored_ts s seed row col)"
  by (simp add: stored_ts_ApplyDelta returned_bucket_ApplyDelta max_timestamp_wins_max
      sorted_ts_history max_def)

text \<open>
  The timestamp scenario of the specification: a delta at 4000 and then one at 3500 leave the
  stored timestamp at 4000.
\<close>

theorem ApplyDelta_timestamp_max_wins_witness:
  "(3500 :: u64) \<le>
     stored_ts (snd (ApplyDelta (NewInMemoryStore 0 0 0) 1 2 3 (Fin 0.1) 4000)) 1 2 3
   \<and> stored_ts
        (snd (ApplyDelta (snd (ApplyDelta (NewInMemoryStore 0 0 0) 1 2 3 (Fin 0.1) 4000))
                1 2 3 (Fin 0.1) 3500)) 1 2 3 = 4000
   \<and> ts_history (NewInMemoryStore 0 0 0) 1 2 3 [(Fin 0.1, 4000), (Fin 0.1, 3500)]
       = [0, 4000, 4000]"
proof -
  let ?s1 = "snd (ApplyDelta (NewInMemoryStore 0 0 0) 1 2 3 (Fin 0.1) 4000)"
  have s0: "stored_ts (NewInMemoryStore 0 0 0) 1 2 3 = 0"
    by (simp add: stored_ts_def stored_bucket_def NewInMemoryStore_def)
  have s1: "stored_ts ?s1 1 2 3 = 4000"
    by (simp add: stored_ts_ApplyDelta s0 max_timestamp_wins_def)
  have le: "(3500 :: u64) \<le> stored_ts ?s1 1 2 3"
    by (simp add: s1)
  have hist: "ts_history (NewInMemoryStore 0 0 0) 1 2 3 [(Fin 0.1, 4000), (Fin 0.1, 3500)]
       = [0, 4000, 4000]"
    by (simp add: s0 s1 stored_ts_ApplyDelta max_timestamp_wins_def)
  from ApplyDelta_timestamp_max_wins [of ?s1 1 2 3 "Fin 0.1" 3500 "[]"] le s1 hist
  show ?thesis by simp
qed

subsection \<open>Reading a seed\<close>

lemma Bucket_copy:
  "\<lparr>RowId = RowId b, ColId = ColId b, Prob = Prob b,
    LastUpdateTimeMs = LastUpdateTimeMs b\<rparr> = (b :: Bucket)"
  by simp

text \<open>
  The result holds the stored buckets of the seed whose row and column the two ranges yield.
\<close>

lemma set_GetSeed:
  "set (GetSeed rows cols s seed) =
     {b. \<exists>row \<in> set rows. \<exists>col \<in> set (cols row). stored_bucket s seed row col = Some b}"
proof (cases "buckets s seed")
  case None
  then show ?thesis by (simp add: GetSeed_def stored_bucket_def)
next
  case (Some seedMap)
  have inner: "set (case seedMap r of
              None \<Rightarrow> []
            | Some rowMap \<Rightarrow>
                concat (map (\<lambda>c. case rowMap c of
                                    None \<Rightarrow> []
                                  | Some bucket \<Rightarrow>
                                      [\<lparr>RowId = RowId bucket, ColId = ColId bucket,
                                        Prob = Prob bucket,
                                        LastUpdateTimeMs = LastUpdateTimeMs bucket\<rparr>])
                          (cols r)))
      = {b. \<exists>col \<in> set (cols r). stored_bucket s seed r col = Some b}" for r
  proof (cases "seedMap r")
    case None
    then show ?thesis using Some by (simp add: stored_bucket_def)
  next
    case (Some rowMap)
    have "set (case rowMap c of None \<Rightarrow> []
               | Some bucket \<Rightarrow> [\<lparr>RowId = RowId bucket, ColId = ColId bucket,
                                  Prob = Prob bucket,
                                  LastUpdateTimeMs = LastUpdateTimeMs bucket\<rparr>])
        = {b. rowMap c = Some b}" for c
      by (cases "rowMap c") (simp_all add: Bucket_copy)
    then show ?thesis
      using Some \<open>buckets s seed = Some seedMap\<close> by (auto simp: stored_bucket_def)
  qed
  show ?thesis
    using Some by (auto simp: GetSeed_def inner)
qed

lemma GetSeed_member:
  assumes "stored_bucket s seed row col = Some b"
    and "row \<in> set rows" and "col \<in> set (cols row)"
  shows "b \<in> set (GetSeed rows cols s seed)"
  using assms unfolding set_GetSeed by blast

lemma GetSeed_stored:
  assumes "b \<in> set (GetSeed rows cols s seed)"
  shows "\<exists>row col. stored_bucket s seed row col = Some b"
  using assms unfolding set_GetSeed by blast

lemma GetSeed_cong:
  "buckets s k = buckets s' k \<Longrightarrow> GetSeed rows cols s k = GetSeed rows cols s' k"
  by (simp add: GetSeed_def)

text \<open>
  \<^verbatim>\<open>ApplyDelta\<close> on a key with no bucket creates it, whatever the delta: the bucket
  returned has the key's row and column, the probability \<open>0 + delta\<close> put through the two
  comparisons and the timestamp \<open>max 0 ts\<close>; it is stored under the key, and a \<^verbatim>\<open>GetSeed\<close>
  of that seed whose ranges reach the key returns it. When the delta is a number the probability
  is the delta clamped to \<open>[0, 1]\<close>; when it is NaN the probability is NaN.
\<close>

lemma ApplyDelta_materializes_bucket:
  assumes "stored_bucket s seed row col = None"
    and "row \<in> set rows" and "col \<in> set (cols row)"
  shows "fst (ApplyDelta s seed row col delta ts) =
           \<lparr>RowId = row, ColId = col, Prob = add_and_clamp (Fin 0) delta,
            LastUpdateTimeMs = max 0 ts\<rparr>
    \<and> stored_bucket (snd (ApplyDelta s seed row col delta ts)) seed row col =
        Some (fst (ApplyDelta s seed row col delta ts))
    \<and> fst (ApplyDelta s seed row col delta ts)
        \<in> set (GetSeed rows cols (snd (ApplyDelta s seed row col delta ts)) seed)
    \<and> add_and_clamp (Fin 0) delta =
        (case delta of NaN \<Rightarrow> NaN | NegInf \<Rightarrow> Fin 0 | PosInf \<Rightarrow> Fin 1
         | Fin x \<Rightarrow> Fin (max 0 (min 1 x)))"
proof -
  have ret: "fst (ApplyDelta s seed row col delta ts) =
           \<lparr>RowId = row, ColId = col, Prob = add_and_clamp (Fin 0) delta,
            LastUpdateTimeMs = max 0 ts\<rparr>"
    using assms(1)
    by (simp add: returned_bucket_ApplyDelta stored_prob_def stored_ts_def
        max_timestamp_wins_max)
  have st: "stored_bucket (snd (ApplyDelta s seed row col delta ts)) seed row col =
        Some (fst (ApplyDelta s seed row col delta ts))"
    using assms(1)
    by (simp add: stored_bucket_ApplyDelta ret stored_prob_def stored_ts_def
        max_timestamp_wins_max)
  have mem: "fst (ApplyDelta s seed row col delta ts)
      \<in> set (GetSeed rows cols (snd (ApplyDelta s seed row col delta ts)) seed)"
    using st assms(2,3) by (rule GetSeed_member)
  have cl: "add_and_clamp (Fin 0) delta =
        (case delta of NaN \<Rightarrow> NaN | NegInf \<Rightarrow> Fin 0 | PosInf \<Rightarrow> Fin 1
         | Fin x \<Rightarrow> Fin (max 0 (min 1 x)))"
    by (cases delta) (simp_all add: add_and_clamp_cases)
  show ?thesis
    using ret st mem cl by blast
qed

text \<open>
  For a delta that is a number the new bucket's probability lies in \<open>[0, 1]\<close>.
\<close>

lemma ApplyDelta_new_bucket_in_unit_interval:
  assumes "stored_bucket s seed row col = None" and "delta \<noteq> NaN"
  shows "in_unit_interval (Prob (fst (ApplyDelta s seed row col delta ts)))"
proof -
  have "stored_prob s seed row col = Fin 0"
    using assms(1) by (simp add: stored_prob_def)
  then have "Prob (fst (ApplyDelta s seed row col delta ts)) = add_and_clamp (Fin 0) delta"
    by (simp add: ApplyDelta_prob)
  then show ?thesis
    using assms(2) by (simp add: add_and_clamp_in_unit)
qed

text \<open>
  On the empty store a delta of \<open>\<minus>1\<close> for seed 7, row 1, column 2 at time 5 leaves a bucket of
  probability 0, and \<^verbatim>\<open>GetSeed(7)\<close> returns exactly that bucket.
\<close>

lemma ApplyDelta_materializes_bucket_example:
  "stored_bucket (NewInMemoryStore 0 0 0) 7 1 2 = None
   \<and> GetSeed [1] (\<lambda>r. [2]) (snd (ApplyDelta (NewInMemoryStore 0 0 0) 7 1 2 (Fin (- 1)) 5)) 7
       = [\<lparr>RowId = 1, ColId = 2, Prob = Fin 0, LastUpdateTimeMs = 5\<rparr>]"
proof -
  have n: "stored_bucket (NewInMemoryStore 0 0 0) 7 1 2 = None"
    by (simp add: stored_bucket_def NewInMemoryStore_def)
  have cl: "add_and_clamp (Fin 0) (Fin (- 1)) = Fin 0"
    by (simp add: add_and_clamp_Fin)
  have all: "GetSeed [1] (\<lambda>r. [2])
      (snd (ApplyDelta (NewInMemoryStore 0 0 0) 7 1 2 (Fin (- 1)) 5)) 7
       = [\<lparr>RowId = 1, ColId = 2, Prob = Fin 0, LastUpdateTimeMs = 5\<rparr>]"
    by (simp add: GetSeed_def ApplyDelta_def NewInMemoryStore_def Let_def cl
        max_timestamp_wins_def)
  show ?thesis
    using n all by simp
qed

text \<open>
  C10. The claim: \<^verbatim>\<open>ApplyDelta\<close> on a key with no bucket creates the bucket with probability
  \<open>clamp(delta, 0, 1)\<close> for every delta, and \<^verbatim>\<open>GetSeed\<close> then returns it. The bucket is
  indeed created for every delta, but the two comparisons that clamp are both false for a NaN:
  on the empty store \<^verbatim>\<open>ApplyDelta(7, 1, 2, NaN, 5)\<close> returns and stores a bucket of
  probability NaN, which is not in \<open>[0, 1]\<close>, and \<^verbatim>\<open>GetSeed(7)\<close> returns that bucket.
\<close>

theorem ApplyDelta_materializes_NaN_bucket:
  "stored_bucket (NewInMemoryStore 0 0 0) 7 1 2 = None
   \<and> fst (ApplyDelta (NewInMemoryStore 0 0 0) 7 1 2 NaN 5)
       = \<lparr>RowId = 1, ColId = 2, Prob = NaN, LastUpdateTimeMs = 5\<rparr>
   \<and> GetSeed [1] (\<lambda>r. [2]) (snd (ApplyDelta (NewInMemoryStore 0 0 0) 7 1 2 NaN 5)) 7
       = [\<lparr>RowId = 1, ColId = 2, Prob = NaN, LastUpdateTimeMs = 5\<rparr>]
   \<and> \<not> in_unit_interval (Prob (fst (ApplyDelta (NewInMemoryStore 0 0 0) 7 1 2 NaN 5)))"
proof -
  have n: "stored_bucket (NewInMemoryStore 0 0 0) 7 1 2 = None"
    by (simp add: stored_bucket_def NewInMemoryStore_def)
  have cl: "add_and_clamp (Fin 0) NaN = NaN"
    by (rule add_and_clamp_NaN)
  have m: "max_timestamp_wins 5 0 = 5"
    by (simp add: max_timestamp_wins_def)
  have ret: "fst (ApplyDelta (NewInMemoryStore 0 0 0) 7 1 2 NaN 5)
       = \<lparr>RowId = 1, ColId = 2, Prob = NaN, LastUpdateTimeMs = 5\<rparr>"
    using n by (simp add: returned_bucket_ApplyDelta stored_prob_def stored_ts_def cl m)
  have all: "GetSeed [1] (\<lambda>r. [2]) (snd (ApplyDelta (NewInMemoryStore 0 0 0) 7 1 2 NaN 5)) 7
       = [\<lparr>RowId = 1, ColId = 2, Prob = NaN, LastUpdateTimeMs = 5\<rparr>]"
    by (simp add: GetSeed_def ApplyDelta_def NewInMemoryStore_def Let_def cl m)
  show ?thesis
    using n all by (simp add: ret)
qed

subsection \<open>Eviction\<close>

lemma EvictBefore_loop_eq:
  "EvictBefore_loop ks seed m = (\<lambda>k. if k \<in> set ks \<and> k < seed then None else m k)"
  by (induction ks arbitrary: m) (auto simp: fun_eq_iff)

lemma buckets_EvictBefore:
  "buckets (EvictBefore ks s seed) k = (if k \<in> set ks \<and> k < seed then None else buckets s k)"
  by (simp add: EvictBefore_def EvictBefore_loop_eq)

lemma EvictBefore_idem:
  assumes "set ks = dom (buckets s)"
  shows "EvictBefore ks' (EvictBefore ks s seed) seed = EvictBefore ks s seed"
proof -
  have "EvictBefore_loop ks' seed (EvictBefore_loop ks seed (buckets s)) =
      EvictBefore_loop ks seed (buckets s)"
    using assms by (auto simp: fun_eq_iff EvictBefore_loop_eq)
  then show ?thesis
    by (simp add: EvictBefore_def)
qed

text \<open>
  C6. Let \<^verbatim>\<open>EvictBefore(seed)\<close> range over the top-level keys of the store in any order. Then
  the keys left are exactly those not below \<open>seed\<close>; \<^verbatim>\<open>GetSeed\<close> returns the empty slice
  for every seed below it; every seed not below it keeps its subtree and its \<^verbatim>\<open>GetSeed\<close>
  result; and running \<^verbatim>\<open>EvictBefore(seed)\<close> again, in any order, changes nothing.
\<close>

theorem EvictBefore_deletes_older_seeds:
  assumes "set ks = dom (buckets s)"
  shows "dom (buckets (EvictBefore ks s seed)) = {k \<in> dom (buckets s). \<not> k < seed}
    \<and> (\<forall>s'. s' < seed \<longrightarrow> GetSeed rows cols (EvictBefore ks s seed) s' = [])
    \<and> (\<forall>k. \<not> k < seed \<longrightarrow>
          buckets (EvictBefore ks s seed) k = buckets s k
          \<and> GetSeed rows cols (EvictBefore ks s seed) k = GetSeed rows cols s k)
    \<and> (\<forall>ks'. EvictBefore ks' (EvictBefore ks s seed) seed = EvictBefore ks s seed)"
proof (intro conjI allI impI)
  show "dom (buckets (EvictBefore ks s seed)) = {k \<in> dom (buckets s). \<not> k < seed}"
    using assms by (auto simp: buckets_EvictBefore dom_def)
next
  fix s' assume "s' < seed"
  then have "buckets (EvictBefore ks s seed) s' = None"
    using assms by (auto simp: buckets_EvictBefore)
  then show "GetSeed rows cols (EvictBefore ks s seed) s' = []"
    by (simp add: GetSeed_def)
next
  fix k assume k: "\<not> k < seed"
  then show b: "buckets (EvictBefore ks s seed) k = buckets s k"
    by (simp add: buckets_EvictBefore)
  show "GetSeed rows cols (EvictBefore ks s seed) k = GetSeed rows cols s k"
    using b by (rule GetSeed_cong)
next
  fix ks'
  show "EvictBefore ks' (EvictBefore ks s seed) seed = EvictBefore ks s seed"
    using assms by (rule EvictBefore_idem)
qed

lemma dom_three_seeds: "dom (buckets three_seeds) = {1, 2, 3}"
  by (auto simp: three_seeds_def dom_buckets_ApplyDelta NewInMemoryStore_def)

text \<open>
  The eviction test: with seeds 1, 2 and 3 stored, \<^verbatim>\<open>EvictBefore(2)\<close> leaves seeds 2 and 3,
  \<^verbatim>\<open>GetSeed(1)\<close>, one bucket before, is empty, \<^verbatim>\<open>GetSeed(2)\<close> is as before, and a second
  run changes nothing.
\<close>

theorem EvictBefore_deletes_older_seeds_witness:
  "set [3, 1, 2] = dom (buckets three_seeds)
   \<and> dom (buckets (EvictBefore [3, 1, 2] three_seeds 2)) = {2, 3}
   \<and> GetSeed [1] (\<lambda>r. [1]) three_seeds 1
       = [\<lparr>RowId = 1, ColId = 1, Prob = Fin 0.5, LastUpdateTimeMs = 100\<rparr>]
   \<and> GetSeed [1] (\<lambda>r. [1]) (EvictBefore [3, 1, 2] three_seeds 2) 1 = []
   \<and> GetSeed [1] (\<lambda>r. [1]) (EvictBefore [3, 1, 2] three_seeds 2) 2
       = [\<lparr>RowId = 1, ColId = 1, Prob = Fin 0.5, LastUpdateTimeMs = 200\<rparr>]
   \<and> EvictBefore [2, 3] (EvictBefore [3, 1, 2] three_seeds 2) 2
       = EvictBefore [3, 1, 2] three_seeds 2"
proof -
  have d: "set [3, 1, 2] = dom (buckets three_seeds)"
    by (auto simp: dom_three_seeds)
  have lt: "(1 :: u64) < 2" "\<not> (2 :: u64) < 2" "\<not> (3 :: u64) < 2"
    by simp_all
  have k: "{k \<in> dom (buckets three_seeds). \<not> k < 2} = {2, 3}"
    using lt by (auto simp: dom_three_seeds)
  have h: "add_and_clamp (Fin 0) (Fin (1 / 2)) = Fin (1 / 2)"
    by (simp add: add_and_clamp_Fin)
  have g1: "GetSeed [1] (\<lambda>r. [1]) three_seeds 1
       = [\<lparr>RowId = 1, ColId = 1, Prob = Fin 0.5, LastUpdateTimeMs = 100\<rparr>]"
    by (simp add: GetSeed_def three_seeds_def ApplyDelta_def NewInMemoryStore_def Let_def h
        max_timestamp_wins_def)
  have g2: "GetSeed [1] (\<lambda>r. [1]) three_seeds 2
       = [\<lparr>RowId = 1, ColId = 1, Prob = Fin 0.5, LastUpdateTimeMs = 200\<rparr>]"
    by (simp add: GetSeed_def three_seeds_def ApplyDelta_def NewInMemoryStore_def Let_def h
        max_timestamp_wins_def)
  note t = EvictBefore_deletes_older_seeds [OF d, of 2 "[1]" "\<lambda>r. [1]"]
  from t lt have e1: "GetSeed [1] (\<lambda>r. [1]) (EvictBefore [3, 1, 2] three_seeds 2) 1 = []"
    by blast
  from t lt have e2: "GetSeed [1] (\<lambda>r. [1]) (EvictBefore [3, 1, 2] three_seeds 2) 2
      = GetSeed [1] (\<lambda>r. [1]) three_seeds 2"
    by blast
  from t have e3: "EvictBefore [2, 3] (EvictBefore [3, 1, 2] three_seeds 2) 2
       = EvictBefore [3, 1, 2] three_seeds 2"
    by blast
  from t have e0: "dom (buckets (EvictBefore [3, 1, 2] three_seeds 2)) = {2, 3}"
    unfolding k by blast
  show ?thesis
    using d e0 g1 e1 e2 e3 by (simp add: g2)
qed

section \<open>The broadcast hub: fan-out\<close>

text \<open>
  What the broadcast loop leaves behind, client by client, when it ranges over distinct clients
  whose channels are open.
\<close>

lemma run_broadcast_eq:
  "distinct cs \<Longrightarrow> \<forall>c \<in> set cs. \<not> ch_closed (Send h c) \<Longrightarrow>
   \<exists>h'. run_broadcast cs message h = Inr h'
     \<and> Send h' = (\<lambda>c. if c \<in> set cs
                        then (if has_room (Send h c)
                              then (Send h c)\<lparr>ch_buf := ch_buf (Send h c) @ [message]\<rparr>
                              else (Send h c)\<lparr>ch_closed := True\<rparr>)
                        else Send h c)
     \<and> clients h' = (\<lambda>c. if c \<in> set cs \<and> \<not> has_room (Send h c) then None
                           else clients h c)"
proof (induction cs arbitrary: h)
  case Nil
  then show ?case by simp
next
  case (Cons client cs)
  have open_c: "\<not> ch_closed (Send h client)"
    using Cons.prems by simp
  have notin: "client \<notin> set cs" and dist: "distinct cs"
    using Cons.prems by simp_all
  show ?case
  proof (cases "has_room (Send h client)")
    case True
    define h1 where "h1 = h\<lparr>Send := (Send h)(client :=
        (Send h client)\<lparr>ch_buf := ch_buf (Send h client) @ [message]\<rparr>)\<rparr>"
    have step: "run_broadcast (client # cs) message h = run_broadcast cs message h1"
      using True open_c by (simp add: try_send_def has_room_def h1_def)
    have same: "\<forall>c \<in> set cs. Send h1 c = Send h c"
      using notin by (auto simp: h1_def)
    have "\<forall>c \<in> set cs. \<not> ch_closed (Send h1 c)"
      using Cons.prems same by auto
    from Cons.IH [OF dist this] obtain h' where
      r: "run_broadcast cs message h1 = Inr h'"
      and s: "Send h' = (\<lambda>c. if c \<in> set cs
                        then (if has_room (Send h1 c)
                              then (Send h1 c)\<lparr>ch_buf := ch_buf (Send h1 c) @ [message]\<rparr>
                              else (Send h1 c)\<lparr>ch_closed := True\<rparr>)
                        else Send h1 c)"
      and c: "clients h' = (\<lambda>c. if c \<in> set cs \<and> \<not> has_room (Send h1 c) then None
                           else clients h1 c)"
      by blast
    have "Send h' = (\<lambda>c. if c \<in> set (client # cs)
                        then (if has_room (Send h c)
                              then (Send h c)\<lparr>ch_buf := ch_buf (Send h c) @ [message]\<rparr>
                              else (Send h c)\<lparr>ch_closed := True\<rparr>)
                        else Send h c)"
      unfolding s using same True notin by (auto simp: fun_eq_iff h1_def)
    moreover have "clients h' = (\<lambda>c. if c \<in> set (client # cs) \<and> \<not> has_room (Send h c)
                           then None else clients h c)"
      unfolding c using same True notin by (auto simp: fun_eq_iff h1_def)
    ultimately show ?thesis
      using step r by simp
  next
    case False
    define h1 where "h1 = h\<lparr>Send := (Send h)(client := (Send h client)\<lparr>ch_closed := True\<rparr>),
                 clients := (clients h)(client := None)\<rparr>"
    have step: "run_broadcast (client # cs) message h = run_broadcast cs message h1"
      using False open_c by (simp add: try_send_def has_room_def close_chan_def h1_def)
    have same: "\<forall>c \<in> set cs. Send h1 c = Send h c"
      using notin by (auto simp: h1_def)
    have "\<forall>c \<in> set cs. \<not> ch_closed (Send h1 c)"
      using Cons.prems same by auto
    from Cons.IH [OF dist this] obtain h' where
      r: "run_broadcast cs message h1 = Inr h'"
      and s: "Send h' = (\<lambda>c. if c \<in> set cs
                        then (if has_room (Send h1 c)
                              then (Send h1 c)\<lparr>ch_buf := ch_buf (Send h1 c) @ [message]\<rparr>
                              else (Send h1 c)\<lparr>ch_closed := True\<rparr>)
                        else Send h1 c)"
      and c: "clients h' = (\<lambda>c. if c \<in> set cs \<and> \<not> has_room (Send h1 c) then None
                           else clients h1 c)"
      by blast
    have "Send h' = (\<lambda>c. if c \<in> set (client # cs)
                        then (if has_room (Send h c)
                              then (Send h c)\<lparr>ch_buf := ch_buf (Send h c) @ [message]\<rparr>
                              else (Send h c)\<lparr>ch_closed := True\<rparr>)
                        else Send h c)"
      unfolding s using same False notin by (auto simp: fun_eq_iff h1_def)
    moreover have "clients h' = (\<lambda>c. if c \<in> set (client # cs) \<and> \<not> has_room (Send h c)
                           then None else clients h c)"
      unfolding c using same False notin by (auto simp: fun_eq_iff h1_def)
    ultimately show ?thesis
      using step r by simp
  qed
qed

text \<open>
  C7. In a hub state where no registered client has a closed channel, processing a broadcast
  that ranges over the registered clients (each once, in any order) returns without a panic
  and without waiting. Every client registered at that moment either had room, and then is
  still registered with the message appended to its queue, or had a full queue, and then has
  its channel closed and is no longer registered. Clients that were not registered are not
  touched. So every client registered afterwards has the message as the last element of its
  queue, and again no registered client has a closed channel.
\<close>

theorem broadcast_reaches_or_drops:
  assumes "hub_inv h" and "distinct cs" and "set cs = dom (clients h)"
  shows "\<exists>h'. run_broadcast cs message h = Inr h'
    \<and> (\<forall>c \<in> dom (clients h).
          (has_room (Send h c) \<longrightarrow>
             clients h' c = clients h c
             \<and> Send h' c = (Send h c)\<lparr>ch_buf := ch_buf (Send h c) @ [message]\<rparr>)
          \<and> (\<not> has_room (Send h c) \<longrightarrow>
             clients h' c = None \<and> Send h' c = (Send h c)\<lparr>ch_closed := True\<rparr>))
    \<and> (\<forall>c. c \<notin> dom (clients h) \<longrightarrow> clients h' c = None \<and> Send h' c = Send h c)
    \<and> (\<forall>c \<in> dom (clients h').
          c \<in> dom (clients h) \<and> ch_buf (Send h' c) = ch_buf (Send h c) @ [message])
    \<and> hub_inv h'"
proof -
  have "\<forall>c \<in> set cs. \<not> ch_closed (Send h c)"
    using assms(1,3) by (simp add: hub_inv_def)
  from run_broadcast_eq [OF assms(2) this, of message] obtain h' where
    r: "run_broadcast cs message h = Inr h'"
    and s: "\<And>c. Send h' c = (if c \<in> set cs
                        then (if has_room (Send h c)
                              then (Send h c)\<lparr>ch_buf := ch_buf (Send h c) @ [message]\<rparr>
                              else (Send h c)\<lparr>ch_closed := True\<rparr>)
                        else Send h c)"
    and c: "\<And>c. clients h' c = (if c \<in> set cs \<and> \<not> has_room (Send h c) then None
                           else clients h c)"
    by (auto simp: fun_eq_iff)
  have 1: "\<forall>c \<in> dom (clients h).
          (has_room (Send h c) \<longrightarrow>
             clients h' c = clients h c
             \<and> Send h' c = (Send h c)\<lparr>ch_buf := ch_buf (Send h c) @ [message]\<rparr>)
          \<and> (\<not> has_room (Send h c) \<longrightarrow>
             clients h' c = None \<and> Send h' c = (Send h c)\<lparr>ch_closed := True\<rparr>)"
    using assms(3) by (simp add: s c)
  have 2: "\<forall>c. c \<notin> dom (clients h) \<longrightarrow> clients h' c = None \<and> Send h' c = Send h c"
    using assms(3) by (auto simp: s c)
  have 3: "\<forall>c \<in> dom (clients h').
          c \<in> dom (clients h) \<and> ch_buf (Send h' c) = ch_buf (Send h c) @ [message]"
    using assms(3) by (auto simp: s c dom_def split: if_splits)
  have 4: "hub_inv h'"
    using assms(1,3) unfolding hub_inv_def by (auto simp: s c dom_def split: if_splits)
  show ?thesis
    using r 1 2 3 4 by blast
qed

text \<open>
  With client 1 empty and client 2 full, a broadcast leaves client 1 registered with the
  message in its queue, and client 2 closed, out of the map and with its queue as it was.
\<close>

theorem broadcast_reaches_or_drops_witness:
  "hub_inv two_clients \<and> distinct [2, 1 :: client_ref] \<and> set [2, 1] = dom (clients two_clients)
   \<and> (\<exists>h'. run_broadcast [2, 1] \<lparr>Seed = 123, Buckets = []\<rparr> two_clients = Inr h'
        \<and> clients h' 1 = Some True
        \<and> ch_buf (Send h' 1) = [\<lparr>Seed = 123, Buckets = []\<rparr>]
        \<and> clients h' 2 = None
        \<and> ch_closed (Send h' 2)
        \<and> ch_buf (Send h' 2) = replicate 256 \<lparr>Seed = 0, Buckets = []\<rparr>)"
proof -
  have inv: "hub_inv two_clients"
    by (simp add: hub_inv_def two_clients_def make_chan_def)
  have d: "distinct [2, 1 :: client_ref]"
    by simp
  have s: "set [2, 1] = dom (clients two_clients)"
    by (auto simp: two_clients_def)
  have r1: "has_room (Send two_clients 1)" and r2: "\<not> has_room (Send two_clients 2)"
    by (simp_all add: has_room_def two_clients_def make_chan_def)
  have m: "1 \<in> dom (clients two_clients)" "2 \<in> dom (clients two_clients)"
    by (simp_all add: two_clients_def)
  from broadcast_reaches_or_drops [OF inv d s, of "\<lparr>Seed = 123, Buckets = []\<rparr>"]
  obtain h' where
    r: "run_broadcast [2, 1] \<lparr>Seed = 123, Buckets = []\<rparr> two_clients = Inr h'"
    and a: "\<forall>c \<in> dom (clients two_clients).
          (has_room (Send two_clients c) \<longrightarrow>
             clients h' c = clients two_clients c
             \<and> Send h' c = (Send two_clients c)\<lparr>ch_buf := ch_buf (Send two_clients c) @
                  [\<lparr>Seed = 123, Buckets = []\<rparr>]\<rparr>)
          \<and> (\<not> has_room (Send two_clients c) \<longrightarrow>
             clients h' c = None \<and> Send h' c = (Send two_clients c)\<lparr>ch_closed := True\<rparr>)"
    by blast
  from a m(1) r1 have c1: "clients h' 1 = clients two_clients 1"
    "Send h' 1 = (Send two_clients 1)\<lparr>ch_buf := ch_buf (Send two_clients 1) @
                  [\<lparr>Seed = 123, Buckets = []\<rparr>]\<rparr>"
    by blast+
  from a m(2) r2 have c2: "clients h' 2 = None"
    "Send h' 2 = (Send two_clients 2)\<lparr>ch_closed := True\<rparr>"
    by blast+
  have "clients h' 1 = Some True \<and> ch_buf (Send h' 1) = [\<lparr>Seed = 123, Buckets = []\<rparr>]
      \<and> clients h' 2 = None \<and> ch_closed (Send h' 2)
      \<and> ch_buf (Send h' 2) = replicate 256 \<lparr>Seed = 0, Buckets = []\<rparr>"
    unfolding c1 c2 by (simp add: two_clients_def make_chan_def)
  then show ?thesis
    using inv d s r by blast
qed

text \<open>
  The hypothesis on the hub state holds in every state the event loop reaches: the loop never
  panics and no registered client ever has a closed channel.
\<close>

lemma hub_inv_NewHub: "hub_inv (NewHub heap)"
  by (simp add: hub_inv_def NewHub_def)

lemma hub_inv_Register: "hub_inv h \<Longrightarrow> hub_inv (Register client h)"
  by (auto simp: hub_inv_def Register_def make_chan_def)

lemma hub_inv_run_unregister:
  "hub_inv h \<Longrightarrow> \<exists>h'. run_unregister client h = Inr h' \<and> hub_inv h'"
  by (auto simp: hub_inv_def run_unregister_def close_chan_def dom_def split: option.splits)

lemma run_broadcast_hub_inv:
  assumes "hub_inv h" and "distinct cs" and "set cs = dom (clients h)"
  shows "\<exists>h'. run_broadcast cs message h = Inr h' \<and> hub_inv h'"
proof -
  have "\<forall>c \<in> set cs. \<not> ch_closed (Send h c)"
    using assms(1,3) by (simp add: hub_inv_def)
  from run_broadcast_eq [OF assms(2) this, of message] obtain h' where
    r: "run_broadcast cs message h = Inr h'"
    and s: "\<And>c. Send h' c = (if c \<in> set cs
                        then (if has_room (Send h c)
                              then (Send h c)\<lparr>ch_buf := ch_buf (Send h c) @ [message]\<rparr>
                              else (Send h c)\<lparr>ch_closed := True\<rparr>)
                        else Send h c)"
    and c: "\<And>c. clients h' c = (if c \<in> set cs \<and> \<not> has_room (Send h c) then None
                           else clients h c)"
    by (auto simp: fun_eq_iff)
  have "hub_inv h'"
    using assms(1,3) unfolding hub_inv_def by (auto simp: s c dom_def split: if_splits)
  then show ?thesis
    using r by blast
qed

lemma Run_keeps_hub_inv:
  "hub_inv h \<Longrightarrow> range_orders es h \<Longrightarrow> \<exists>h'. Run es h = Inr h' \<and> hub_inv h'"
proof (induction es arbitrary: h)
  case Nil
  then show ?case by simp
next
  case (Cons e es)
  show ?case
  proof (cases e)
    case (RegisterEv client)
    then show ?thesis
      using Cons.prems Cons.IH [of "Register client h"] by (simp add: hub_inv_Register)
  next
    case (UnregisterEv client)
    from hub_inv_run_unregister [OF Cons.prems(1), of client] obtain h1 where
      "run_unregister client h = Inr h1" "hub_inv h1" by blast
    then show ?thesis
      using UnregisterEv Cons.prems Cons.IH [of h1] by simp
  next
    case (BroadcastEv message cs)
    then have "distinct cs" "set cs = dom (clients h)"
      using Cons.prems by simp_all
    from run_broadcast_hub_inv [OF Cons.prems(1) this, of message] obtain h1 where
      "run_broadcast cs message h = Inr h1" "hub_inv h1" by blast
    then show ?thesis
      using BroadcastEv Cons.prems Cons.IH [of h1] by simp
  qed
qed

section \<open>The state client: producers\<close>

text \<open>
  C8. On a client whose outbound channel is open (nothing in the package closes it),
  \<^verbatim>\<open>SendDeltaUpdate\<close> and \<^verbatim>\<open>RequestFullState\<close> return at once: when the queue has free
  capacity the request is appended to it, and when it is full the client is returned
  unchanged and the drop is logged.
\<close>

theorem producers_never_block:
  assumes "\<not> ch_closed (sendCh c)"
  shows "(length (ch_buf (sendCh c)) < ch_cap (sendCh c) \<longrightarrow>
            SendDeltaUpdate c seed deltas =
              Inr (c\<lparr>sendCh := (sendCh c)\<lparr>ch_buf := ch_buf (sendCh c) @
                        [DeltaUpdate seed deltas]\<rparr>\<rparr>, [])
            \<and> RequestFullState c seed =
              Inr (c\<lparr>sendCh := (sendCh c)\<lparr>ch_buf := ch_buf (sendCh c) @
                        [StateRequest seed]\<rparr>\<rparr>, []))
     \<and> (\<not> length (ch_buf (sendCh c)) < ch_cap (sendCh c) \<longrightarrow>
            SendDeltaUpdate c seed deltas =
              Inr (c, [''State Service client buffer full, dropping delta update''])
            \<and> RequestFullState c seed =
              Inr (c, [''State Service client buffer full, dropping state request'']))"
  using assms by (simp add: SendDeltaUpdate_def RequestFullState_def try_send_def)

text \<open>
  A new client takes a delta update into its empty queue; a client with 1024 queued requests
  drops a state request and keeps its queue.
\<close>

theorem producers_never_block_witness:
  "\<not> ch_closed (sendCh (NewClient ''localhost:50051''))
   \<and> length (ch_buf (sendCh (NewClient ''localhost:50051'')))
       < ch_cap (sendCh (NewClient ''localhost:50051''))
   \<and> SendDeltaUpdate (NewClient ''localhost:50051'') 7
        [\<lparr>DeltaRowId = 1, DeltaColId = 2, DeltaProb = Fin 0.1, DeltaLastUpdateTimeMs = 5\<rparr>] =
       Inr (\<lparr>addr = ''localhost:50051'',
             sendCh = \<lparr>ch_buf = [DeltaUpdate 7
               [\<lparr>DeltaRowId = 1, DeltaColId = 2, DeltaProb = Fin 0.1,
                  DeltaLastUpdateTimeMs = 5\<rparr>]],
               ch_cap = 1024, ch_closed = False\<rparr>\<rparr>, [])
   \<and> \<not> ch_closed (sendCh full_client)
   \<and> \<not> length (ch_buf (sendCh full_client)) < ch_cap (sendCh full_client)
   \<and> RequestFullState full_client 8 =
       Inr (full_client, [''State Service client buffer full, dropping state request''])"
proof -
  let ?c = "NewClient ''localhost:50051''"
  have o1: "\<not> ch_closed (sendCh ?c)" and r1: "length (ch_buf (sendCh ?c)) < ch_cap (sendCh ?c)"
    by (simp_all add: NewClient_def make_chan_def)
  have o2: "\<not> ch_closed (sendCh full_client)"
    and r2: "\<not> length (ch_buf (sendCh full_client)) < ch_cap (sendCh full_client)"
    by (simp_all add: full_client_def)
  from producers_never_block [OF o1, of 7
      "[\<lparr>DeltaRowId = 1, DeltaColId = 2, DeltaProb = Fin 0.1, DeltaLastUpdateTimeMs = 5\<rparr>]"] r1
  have a: "SendDeltaUpdate ?c 7
        [\<lparr>DeltaRowId = 1, DeltaColId = 2, DeltaProb = Fin 0.1, DeltaLastUpdateTimeMs = 5\<rparr>] =
       Inr (\<lparr>addr = ''localhost:50051'',
             sendCh = \<lparr>ch_buf = [DeltaUpdate 7
               [\<lparr>DeltaRowId = 1, DeltaColId = 2, DeltaProb = Fin 0.1,
                  DeltaLastUpdateTimeMs = 5\<rparr>]],
               ch_cap = 1024, ch_closed = False\<rparr>\<rparr>, [])"
    by (simp add: NewClient_def make_chan_def)
  from producers_never_block [OF o2, of 8 "[]"] r2
  have b: "RequestFullState full_client 8 =
       Inr (full_client, [''State Service client buffer full, dropping state request''])"
    by blast
  show ?thesis
    using o1 r1 o2 r2 a b by blast
qed

section \<open>The local tracker: rotation\<close>

lemma createStructure_GetID:
  "creates_with_seed ops \<Longrightarrow> createStructure ops cfg seed client = Inr s \<Longrightarrow> GetID ops s = seed"
  by (auto simp: creates_with_seed_def createStructure_def split: sum.splits option.splits)

lemma rotation_tick_Inr:
  assumes "rotation_tick ops cfg now st = Inr st'"
  shows "\<exists>s. createStructure ops cfg ((now div Milliseconds (RotationFrequency cfg)) + 1) (snd st)
              = Inr s
           \<and> fst st' = \<lparr>mainStructure = secondaryStructure (fst st), secondaryStructure = s\<rparr>"
  using assms
  by (auto simp: rotation_tick_def Let_def split: if_splits sum.splits option.splits)

lemma rotation_goroutine_distinct:
  assumes ops: "creates_with_seed ops"
  shows "ticks_leave_window ops cfg es st \<Longrightarrow>
    GetID ops (mainStructure (fst st)) \<noteq> GetID ops (secondaryStructure (fst st)) \<Longrightarrow>
    GetID ops (mainStructure (fst (rotation_goroutine ops cfg es st)))
      \<noteq> GetID ops (secondaryStructure (fst (rotation_goroutine ops cfg es st)))"
proof (induction es arbitrary: st)
  case Nil
  then show ?case by simp
next
  case (Cons e es)
  show ?case
  proof (cases e)
    case StopRotation
    then show ?thesis using Cons.prems by simp
  next
    case (Tick now)
    show ?thesis
    proof (cases "rotation_tick ops cfg now st")
      case (Inr st')
      from rotation_tick_Inr [OF Inr] obtain s where
        s: "createStructure ops cfg ((now div Milliseconds (RotationFrequency cfg)) + 1) (snd st)
              = Inr s"
        and st': "fst st' = \<lparr>mainStructure = secondaryStructure (fst st), secondaryStructure = s\<rparr>"
        by blast
      have "GetID ops s = (now div Milliseconds (RotationFrequency cfg)) + 1"
        using ops s by (rule createStructure_GetID)
      then have "GetID ops (mainStructure (fst st')) \<noteq> GetID ops (secondaryStructure (fst st'))"
        using Cons.prems(1) st' Tick by auto
      moreover have "ticks_leave_window ops cfg es st'"
        using Cons.prems(1) Inr Tick by simp
      ultimately show ?thesis
        using Cons.IH [of st'] Inr Tick by simp
    next
      case (Inl f)
      show ?thesis
      proof (cases f)
        case (Panic p)
        then show ?thesis using Inl Tick Cons.prems by simp
      next
        case (FairnessTrackerError m)
        then show ?thesis using Inl Tick Cons.prems Cons.IH [of st] by simp
      next
        case (Fatalf m)
        then show ?thesis using Inl Tick Cons.prems Cons.IH [of st] by simp
      qed
    qed
  qed
qed

lemma NewFairnessTracker_Inr:
  assumes "NewFairnessTrackerWithClockAndTicker ops trackerConfig now = Inr st"
  shows "\<exists>cfg st1 st2 client.
      trackerConfig = Some cfg \<and> Milliseconds (RotationFrequency cfg) \<noteq> 0
      \<and> createStructure ops cfg (now div Milliseconds (RotationFrequency cfg)) client = Inr st1
      \<and> createStructure ops cfg (now div Milliseconds (RotationFrequency cfg) + 1) client = Inr st2
      \<and> fst st = \<lparr>mainStructure = st1, secondaryStructure = st2\<rparr>"
  using assms
  by (auto simp: NewFairnessTrackerWithClockAndTicker_def Let_def
      split: option.splits if_splits sum.splits prod.splits)

lemma Milliseconds_one_second: "Milliseconds (RotationFrequency one_second_window) = 1000"
  by (simp add: Milliseconds_def one_second_window_def signed_divide_int_def)

lemma creates_with_seed_recorder: "creates_with_seed recorder_ops"
  by (auto simp: creates_with_seed_def recorder_ops_def)

lemma New_recorder:
  "NewFairnessTrackerWithClockAndTicker recorder_ops (Some one_second_window) 0 =
     Inr (\<lparr>mainStructure = \<lparr>rec_seed = 0, rec_calls = []\<rparr>,
           secondaryStructure = \<lparr>rec_seed = 1, rec_calls = []\<rparr>\<rparr>, None)"
  by (simp add: NewFairnessTrackerWithClockAndTicker_def Milliseconds_one_second Let_def
      createStructure_def recorder_ops_def)
    (simp add: one_second_window_def)

lemma tick_recorder:
  "rotation_tick recorder_ops one_second_window now (ft, None) =
     Inr (\<lparr>mainStructure = secondaryStructure ft,
           secondaryStructure = \<lparr>rec_seed = now div 1000 + 1, rec_calls = []\<rparr>\<rparr>, None)"
  by (simp add: rotation_tick_def Milliseconds_one_second Let_def
      createStructure_def recorder_ops_def)

text \<open>
  C3, as claimed, fails. With a window of one second the tracker built at clock reading 0 holds
  seeds 0 and 1. A tick at reading 500, still in window 0, computes the seed
  \<open>500 / 1000 + 1 = 1\<close>: the old secondary (seed 1) becomes main and the new secondary has
  seed 1 as well.
\<close>

theorem same_window_tick_shares_seed:
  "NewFairnessTrackerWithClockAndTicker recorder_ops (Some one_second_window) 0 =
     Inr (\<lparr>mainStructure = \<lparr>rec_seed = 0, rec_calls = []\<rparr>,
           secondaryStructure = \<lparr>rec_seed = 1, rec_calls = []\<rparr>\<rparr>, None)
   \<and> rotation_goroutine recorder_ops one_second_window [Tick 500]
        (\<lparr>mainStructure = \<lparr>rec_seed = 0, rec_calls = []\<rparr>,
          secondaryStructure = \<lparr>rec_seed = 1, rec_calls = []\<rparr>\<rparr>, None) =
       (\<lparr>mainStructure = \<lparr>rec_seed = 1, rec_calls = []\<rparr>,
         secondaryStructure = \<lparr>rec_seed = 1, rec_calls = []\<rparr>\<rparr>, None)
   \<and> GetID recorder_ops
         (mainStructure (fst (rotation_goroutine recorder_ops one_second_window [Tick 500]
            (\<lparr>mainStructure = \<lparr>rec_seed = 0, rec_calls = []\<rparr>,
              secondaryStructure = \<lparr>rec_seed = 1, rec_calls = []\<rparr>\<rparr>, None))))
       = GetID recorder_ops
         (secondaryStructure (fst (rotation_goroutine recorder_ops one_second_window [Tick 500]
            (\<lparr>mainStructure = \<lparr>rec_seed = 0, rec_calls = []\<rparr>,
              secondaryStructure = \<lparr>rec_seed = 1, rec_calls = []\<rparr>\<rparr>, None))))"
  by (simp add: New_recorder tick_recorder)

text \<open>
  When every tick falls in a window that no earlier reading fell in, the seed a tick computes
  is never the seed of the structure that is secondary at that moment: that seed is one more
  than the window of an earlier reading.
\<close>

lemma fresh_windows_leave_window:
  assumes ops: "creates_with_seed ops"
  shows "fresh_windows (Milliseconds (RotationFrequency cfg)) seen es \<Longrightarrow>
    GetID ops (secondaryStructure (fst st)) = k + 1 \<Longrightarrow> k \<in> set seen \<Longrightarrow>
    ticks_leave_window ops cfg es st"
proof (induction es arbitrary: st seen k)
  case Nil
  then show ?case by simp
next
  case (Cons e es)
  show ?case
  proof (cases e)
    case StopRotation
    then show ?thesis by simp
  next
    case (Tick now)
    let ?w = "Milliseconds (RotationFrequency cfg)"
    have fresh: "now div ?w \<notin> set seen" and rest: "fresh_windows ?w (now div ?w # seen) es"
      using Cons.prems(1) Tick by simp_all
    have ne: "now div ?w + 1 \<noteq> GetID ops (secondaryStructure (fst st))"
      using fresh Cons.prems(2,3) by auto
    have k': "k \<in> set (now div ?w # seen)"
      using Cons.prems(3) by simp
    show ?thesis
    proof (cases "rotation_tick ops cfg now st")
      case (Inr st')
      from rotation_tick_Inr [OF Inr] obtain s where
        s: "createStructure ops cfg (now div ?w + 1) (snd st) = Inr s"
        and st': "fst st' = \<lparr>mainStructure = secondaryStructure (fst st), secondaryStructure = s\<rparr>"
        by blast
      have sec: "GetID ops (secondaryStructure (fst st')) = now div ?w + 1"
        using createStructure_GetID [OF ops s] st' by simp
      have "now div ?w \<in> set (now div ?w # seen)"
        by simp
      from Cons.IH [OF rest sec this] show ?thesis
        using Tick ne Inr by simp
    next
      case (Inl f)
      from Cons.IH [OF rest Cons.prems(2) k'] show ?thesis
        using Tick ne Inl by (cases f) simp_all
    qed
  qed
qed

text \<open>
  C3, amended. Let the structures report the seed they were created for. In every state the
  rotation goroutine reaches from construction through ticks each of which fires in a window
  \<open>now / window\<close> in which no earlier clock reading fell (neither the reading taken at
  construction nor that of an earlier tick), the seeds of main and secondary are distinct.
\<close>

theorem fresh_windows_keep_seeds_distinct:
  assumes "creates_with_seed ops"
    and "NewFairnessTrackerWithClockAndTicker ops (Some cfg) now0 = Inr st0"
    and "fresh_windows (Milliseconds (RotationFrequency cfg))
           [now0 div Milliseconds (RotationFrequency cfg)] es"
  shows "GetID ops (mainStructure (fst (rotation_goroutine ops cfg es st0)))
      \<noteq> GetID ops (secondaryStructure (fst (rotation_goroutine ops cfg es st0)))"
proof -
  let ?w = "Milliseconds (RotationFrequency cfg)"
  from NewFairnessTracker_Inr [OF assms(2)] obtain st1 st2 client where
    c1: "createStructure ops cfg (now0 div ?w) client = Inr st1"
    and c2: "createStructure ops cfg (now0 div ?w + 1) client = Inr st2"
    and st0: "fst st0 = \<lparr>mainStructure = st1, secondaryStructure = st2\<rparr>"
    by auto
  have m: "GetID ops (mainStructure (fst st0)) = now0 div ?w"
    using createStructure_GetID [OF assms(1) c1] st0 by simp
  have s: "GetID ops (secondaryStructure (fst st0)) = now0 div ?w + 1"
    using createStructure_GetID [OF assms(1) c2] st0 by simp
  have "now0 div ?w \<in> set [now0 div ?w]"
    by simp
  with assms(1) assms(3) s have "ticks_leave_window ops cfg es st0"
    by (rule fresh_windows_leave_window)
  moreover have "GetID ops (mainStructure (fst st0)) \<noteq> GetID ops (secondaryStructure (fst st0))"
    by (simp add: m s)
  ultimately show ?thesis
    using assms(1) by (rule rotation_goroutine_distinct [rotated])
qed

text \<open>
  Ticks at readings 1000 and 2500 after construction at 0 fall in the windows 1 and 2, after
  window 0, and take the seeds from \<open>(0, 1)\<close> to \<open>(1, 2)\<close> and then to \<open>(2, 3)\<close>.
\<close>

theorem fresh_windows_keep_seeds_distinct_witness:
  "creates_with_seed recorder_ops
   \<and> NewFairnessTrackerWithClockAndTicker recorder_ops (Some one_second_window) 0 =
       Inr (\<lparr>mainStructure = \<lparr>rec_seed = 0, rec_calls = []\<rparr>,
             secondaryStructure = \<lparr>rec_seed = 1, rec_calls = []\<rparr>\<rparr>, None)
   \<and> fresh_windows (Milliseconds (RotationFrequency one_second_window))
        [0 div Milliseconds (RotationFrequency one_second_window)] [Tick 1000, Tick 2500]
   \<and> rotation_goroutine recorder_ops one_second_window [Tick 1000, Tick 2500]
        (\<lparr>mainStructure = \<lparr>rec_seed = 0, rec_calls = []\<rparr>,
          secondaryStructure = \<lparr>rec_seed = 1, rec_calls = []\<rparr>\<rparr>, None) =
       (\<lparr>mainStructure = \<lparr>rec_seed = 2, rec_calls = []\<rparr>,
         secondaryStructure = \<lparr>rec_seed = 3, rec_calls = []\<rparr>\<rparr>, None)
   \<and> GetID recorder_ops \<lparr>rec_seed = 2, rec_calls = []\<rparr>
       \<noteq> GetID recorder_ops \<lparr>rec_seed = 3, rec_calls = []\<rparr>"
proof -
  let ?st0 = "(\<lparr>mainStructure = \<lparr>rec_seed = 0, rec_calls = []\<rparr>,
          secondaryStructure = \<lparr>rec_seed = 1, rec_calls = []\<rparr>\<rparr>, None :: Client option)"
  have fw: "fresh_windows (Milliseconds (RotationFrequency one_second_window))
        [0 div Milliseconds (RotationFrequency one_second_window)] [Tick 1000, Tick 2500]"
    by (simp add: Milliseconds_one_second)
  have run: "rotation_goroutine recorder_ops one_second_window [Tick 1000, Tick 2500] ?st0 =
       (\<lparr>mainStructure = \<lparr>rec_seed = 2, rec_calls = []\<rparr>,
         secondaryStructure = \<lparr>rec_seed = 3, rec_calls = []\<rparr>\<rparr>, None)"
    by (simp add: tick_recorder)
  note t = fresh_windows_keep_seeds_distinct [OF creates_with_seed_recorder New_recorder fw]
  have "GetID recorder_ops \<lparr>rec_seed = 2, rec_calls = []\<rparr>
       \<noteq> GetID recorder_ops \<lparr>rec_seed = 3, rec_calls = []\<rparr>"
    using t unfolding run by simp
  then show ?thesis
    using creates_with_seed_recorder New_recorder fw run by simp
qed

text \<open>
  In particular the seeds stay distinct when each tick falls in a later window than the
  reading before it, starting from the reading at construction.
\<close>

lemma windows_increase_leave_window:
  assumes ops: "creates_with_seed ops"
  shows "windows_increase (Milliseconds (RotationFrequency cfg)) prev es \<Longrightarrow>
    GetID ops (secondaryStructure (fst st)) = k + 1 \<Longrightarrow>
    k \<le> prev div Milliseconds (RotationFrequency cfg) \<Longrightarrow>
    ticks_leave_window ops cfg es st"
proof (induction es arbitrary: st prev k)
  case Nil
  then show ?case by simp
next
  case (Cons e es)
  show ?case
  proof (cases e)
    case StopRotation
    then show ?thesis by simp
  next
    case (Tick now)
    let ?w = "Milliseconds (RotationFrequency cfg)"
    have lt: "prev div ?w < now div ?w" and rest: "windows_increase ?w now es"
      using Cons.prems(1) Tick by simp_all
    have ne: "now div ?w + 1 \<noteq> GetID ops (secondaryStructure (fst st))"
      using lt Cons.prems(2,3) by auto
    have k': "k \<le> now div ?w"
      using lt Cons.prems(3) by simp
    show ?thesis
    proof (cases "rotation_tick ops cfg now st")
      case (Inr st')
      from rotation_tick_Inr [OF Inr] obtain s where
        s: "createStructure ops cfg (now div ?w + 1) (snd st) = Inr s"
        and st': "fst st' = \<lparr>mainStructure = secondaryStructure (fst st), secondaryStructure = s\<rparr>"
        by blast
      have "GetID ops (secondaryStructure (fst st')) = now div ?w + 1"
        using createStructure_GetID [OF ops s] st' by simp
      from Cons.IH [OF rest this order_refl] show ?thesis
        using Tick ne Inr by simp
    next
      case (Inl f)
      from Cons.IH [OF rest Cons.prems(2) k'] show ?thesis
        using Tick ne Inl by (cases f) simp_all
    qed
  qed
qed

lemma increasing_windows_keep_seeds_distinct:
  assumes "creates_with_seed ops"
    and "NewFairnessTrackerWithClockAndTicker ops (Some cfg) now0 = Inr st0"
    and "windows_increase (Milliseconds (RotationFrequency cfg)) now0 es"
  shows "GetID ops (mainStructure (fst (rotation_goroutine ops cfg es st0)))
      \<noteq> GetID ops (secondaryStructure (fst (rotation_goroutine ops cfg es st0)))"
proof -
  from NewFairnessTracker_Inr [OF assms(2)] obtain st1 st2 client where
    c1: "createStructure ops cfg (now0 div Milliseconds (RotationFrequency cfg)) client = Inr st1"
    and c2: "createStructure ops cfg (now0 div Milliseconds (RotationFrequency cfg) + 1) client
        = Inr st2"
    and st0: "fst st0 = \<lparr>mainStructure = st1, secondaryStructure = st2\<rparr>"
    by auto
  have m: "GetID ops (mainStructure (fst st0)) = now0 div Milliseconds (RotationFrequency cfg)"
    using createStructure_GetID [OF assms(1) c1] st0 by simp
  have s: "GetID ops (secondaryStructure (fst st0))
      = now0 div Milliseconds (RotationFrequency cfg) + 1"
    using createStructure_GetID [OF assms(1) c2] st0 by simp
  have "ticks_leave_window ops cfg es st0"
    using assms(1) assms(3) s order_refl by (rule windows_increase_leave_window)
  moreover have "GetID ops (mainStructure (fst st0)) \<noteq> GetID ops (secondaryStructure (fst st0))"
    by (simp add: m s)
  ultimately show ?thesis
    using assms(1) by (rule rotation_goroutine_distinct [rotated])
qed

lemma RequestFullState_open:
  "\<not> ch_closed (sendCh c) \<Longrightarrow>
   RequestFullState c seed =
     Inr (if length (ch_buf (sendCh c)) < ch_cap (sendCh c)
          then (c\<lparr>sendCh := (sendCh c)\<lparr>ch_buf := ch_buf (sendCh c) @ [StateRequest seed]\<rparr>\<rparr>, [])
          else (c, [''State Service client buffer full, dropping state request'']))"
  by (simp add: RequestFullState_def try_send_def)

text \<open>
  C4. At a rotation tick with clock reading \<open>now\<close> the tracker asks for a structure with seed
  \<open>now / window + 1\<close>. When that structure is created (and the window is not zero, as after
  any successful construction, and the state client's channel is open, as always), the tick
  makes the previous secondary the main structure and the new structure the secondary; the
  attached state client, if any, has been asked for the full state of that seed: the request
  is in its queue unless the queue was full.
\<close>

theorem rotation_tick_rotates:
  assumes "Milliseconds (RotationFrequency cfg) \<noteq> 0"
    and "createStructure ops cfg (now div Milliseconds (RotationFrequency cfg) + 1) client = Inr s"
    and "case client of None \<Rightarrow> True | Some c \<Rightarrow> \<not> ch_closed (sendCh c)"
  shows "rotation_tick ops cfg now (ft, client) =
      Inr (\<lparr>mainStructure = secondaryStructure ft, secondaryStructure = s\<rparr>,
           map_option
             (\<lambda>c. if length (ch_buf (sendCh c)) < ch_cap (sendCh c)
                  then c\<lparr>sendCh := (sendCh c)\<lparr>ch_buf := ch_buf (sendCh c) @
                         [StateRequest (now div Milliseconds (RotationFrequency cfg) + 1)]\<rparr>\<rparr>
                  else c)
             client)"
proof (cases client)
  case None
  then show ?thesis
    using assms by (simp add: rotation_tick_def Let_def)
next
  case (Some c)
  then have "\<not> ch_closed (sendCh c)"
    using assms(3) by simp
  then show ?thesis
    using assms(1,2) Some by (simp add: rotation_tick_def Let_def RequestFullState_open)
qed

lemma Milliseconds_with_state_service:
  "Milliseconds (RotationFrequency with_state_service) = 1000"
  by (simp add: Milliseconds_def with_state_service_def signed_divide_int_def)

text \<open>
  With a state client attached, a tick at reading 1000 on seeds \<open>(0, 1)\<close> gives seeds
  \<open>(1, 2)\<close> and queues the state request for seed 2.
\<close>

theorem rotation_tick_rotates_witness:
  "Milliseconds (RotationFrequency with_state_service) \<noteq> 0
   \<and> createStructure recorder_ops with_state_service
        (1000 div Milliseconds (RotationFrequency with_state_service) + 1)
        (Some (NewClient ''localhost:50051'')) = Inr \<lparr>rec_seed = 2, rec_calls = []\<rparr>
   \<and> \<not> ch_closed (sendCh (NewClient ''localhost:50051''))
   \<and> rotation_tick recorder_ops with_state_service 1000
        (\<lparr>mainStructure = \<lparr>rec_seed = 0, rec_calls = []\<rparr>,
          secondaryStructure = \<lparr>rec_seed = 1, rec_calls = []\<rparr>\<rparr>,
         Some (NewClient ''localhost:50051'')) =
       Inr (\<lparr>mainStructure = \<lparr>rec_seed = 1, rec_calls = []\<rparr>,
             secondaryStructure = \<lparr>rec_seed = 2, rec_calls = []\<rparr>\<rparr>,
            Some \<lparr>addr = ''localhost:50051'',
                  sendCh = \<lparr>ch_buf = [StateRequest 2], ch_cap = 1024, ch_closed = False\<rparr>\<rparr>)"
proof -
  let ?c = "NewClient ''localhost:50051''"
  have w: "Milliseconds (RotationFrequency with_state_service) \<noteq> 0"
    by (simp add: Milliseconds_with_state_service)
  have cr: "createStructure recorder_ops with_state_service
        (1000 div Milliseconds (RotationFrequency with_state_service) + 1) (Some ?c)
      = Inr \<lparr>rec_seed = 2, rec_calls = []\<rparr>"
    by (simp add: createStructure_def recorder_ops_def Milliseconds_with_state_service)
  have op: "case Some ?c of None \<Rightarrow> True | Some c \<Rightarrow> \<not> ch_closed (sendCh c)"
    by (simp add: NewClient_def make_chan_def)
  from rotation_tick_rotates [OF w cr op,
      of "\<lparr>mainStructure = \<lparr>rec_seed = 0, rec_calls = []\<rparr>,
          secondaryStructure = \<lparr>rec_seed = 1, rec_calls = []\<rparr>\<rparr>"]
  have "rotation_tick recorder_ops with_state_service 1000
        (\<lparr>mainStructure = \<lparr>rec_seed = 0, rec_calls = []\<rparr>,
          secondaryStructure = \<lparr>rec_seed = 1, rec_calls = []\<rparr>\<rparr>, Some ?c) =
       Inr (\<lparr>mainStructure = \<lparr>rec_seed = 1, rec_calls = []\<rparr>,
             secondaryStructure = \<lparr>rec_seed = 2, rec_calls = []\<rparr>\<rparr>,
            Some \<lparr>addr = ''localhost:50051'',
                  sendCh = \<lparr>ch_buf = [StateRequest 2], ch_cap = 1024, ch_closed = False\<rparr>\<rparr>)"
    by (simp add: NewClient_def make_chan_def Milliseconds_with_state_service)
  then show ?thesis
    using w cr op by simp
qed

text \<open>When the structure cannot be created, the tick logs and the slots stay as they are.\<close>

lemma rotation_tick_create_fails:
  "Milliseconds (RotationFrequency cfg) \<noteq> 0 \<Longrightarrow>
   createStructure ops cfg (now div Milliseconds (RotationFrequency cfg) + 1) (snd st) = Inl err \<Longrightarrow>
   rotation_tick ops cfg now st = Inl (Fatalf ''failed to create a structure during rotation'')
   \<and> rotation_goroutine ops cfg (Tick now # es) st = rotation_goroutine ops cfg es st"
  by (simp add: rotation_tick_def Let_def)

section \<open>The local tracker: dual writes\<close>

text \<open>
  C5. One \<^verbatim>\<open>RegisterRequest\<close> of the tracker runs the structures' \<^verbatim>\<open>RegisterRequest\<close> on
  the main structure and then on the secondary structure, both with the caller's identifier, and
  each slot holds the structure its own call left; \<^verbatim>\<open>ReportOutcome\<close> does the same with the
  identifier and the outcome. On recording structures each of the two logs grows by exactly
  that one call, and two calls have been made in all.
\<close>

theorem tracker_writes_both_structures:
  "RegisterRequest reg ft cid w =
     (fst (reg (mainStructure ft) cid w),
      \<lparr>mainStructure = fst (snd (reg (mainStructure ft) cid w)),
       secondaryStructure =
         fst (snd (reg (secondaryStructure ft) cid (snd (snd (reg (mainStructure ft) cid w)))))\<rparr>,
      snd (snd (reg (secondaryStructure ft) cid (snd (snd (reg (mainStructure ft) cid w))))))
   \<and> ReportOutcome rep ft cid outcome w =
     (fst (rep (mainStructure ft) cid outcome w),
      \<lparr>mainStructure = fst (snd (rep (mainStructure ft) cid outcome w)),
       secondaryStructure =
         fst (snd (rep (secondaryStructure ft) cid outcome
                (snd (snd (rep (mainStructure ft) cid outcome w)))))\<rparr>,
      snd (snd (rep (secondaryStructure ft) cid outcome
             (snd (snd (rep (mainStructure ft) cid outcome w))))))
   \<and> rec_calls (mainStructure (fst (snd (RegisterRequest recorder_RegisterRequest rt cid n))))
       = rec_calls (mainStructure rt) @ [RegisterRequestCall cid]
   \<and> rec_calls (secondaryStructure (fst (snd (RegisterRequest recorder_RegisterRequest rt cid n))))
       = rec_calls (secondaryStructure rt) @ [RegisterRequestCall cid]
   \<and> rec_calls (mainStructure (fst (snd (ReportOutcome recorder_ReportOutcome rt cid outcome n))))
       = rec_calls (mainStructure rt) @ [ReportOutcomeCall cid outcome]
   \<and> rec_calls (secondaryStructure
         (fst (snd (ReportOutcome recorder_ReportOutcome rt cid outcome n))))
       = rec_calls (secondaryStructure rt) @ [ReportOutcomeCall cid outcome]
   \<and> snd (snd (RegisterRequest recorder_RegisterRequest rt cid n)) = n + 2
   \<and> snd (snd (ReportOutcome recorder_ReportOutcome rt cid outcome n)) = n + 2"
  by (simp add: RegisterRequest_def ReportOutcome_def recorder_RegisterRequest_def
      recorder_ReportOutcome_def split: prod.splits)

text \<open>
  C9. What the tracker's \<^verbatim>\<open>RegisterRequest\<close> and \<^verbatim>\<open>ReportOutcome\<close> return is the result of
  the call on the main structure, and it is the same whatever structure is secondary. On
  recording structures the result carries the seed of the main structure.
\<close>

theorem tracker_returns_main_result:
  "fst (RegisterRequest reg ft cid w) = fst (reg (mainStructure ft) cid w)
   \<and> fst (ReportOutcome rep ft cid outcome w) = fst (rep (mainStructure ft) cid outcome w)
   \<and> fst (RegisterRequest reg (ft\<lparr>secondaryStructure := other\<rparr>) cid w)
       = fst (RegisterRequest reg ft cid w)
   \<and> fst (ReportOutcome rep (ft\<lparr>secondaryStructure := other\<rparr>) cid outcome w)
       = fst (ReportOutcome rep ft cid outcome w)
   \<and> fst (RegisterRequest recorder_RegisterRequest
           \<lparr>mainStructure = \<lparr>rec_seed = 10, rec_calls = []\<rparr>,
            secondaryStructure = \<lparr>rec_seed = 11, rec_calls = [RegisterRequestCall cid']\<rparr>\<rparr>
           cid n) = (10, 0)"
  by (simp add: RegisterRequest_def ReportOutcome_def recorder_RegisterRequest_def
      split: prod.splits)

end
